theory Spec2Isabelle
  imports Complex_Main
begin

section \<open>Strings and objects of the host language\<close>

text \<open>
  Strings are character lists; case mapping and white space are those of ASCII. Objects
  that the code uses as dictionaries
  (\<^verbatim>\<open>Record<string, any>\<close>) are association lists in property order with
  distinct keys; writing a key that is present replaces its value in place, writing a new
  key appends it. The model covers ordinary own data properties: keys that are canonical
  array indices (which the language enumerates first) and the key \<^verbatim>\<open>__proto__\<close>
  (which an assignment treats as the prototype accessor) are outside it.
\<close>

definition startsWith :: "string \<Rightarrow> string \<Rightarrow> bool" where
  "startsWith s p = (take (length p) s = p)"

definition endsWith :: "string \<Rightarrow> string \<Rightarrow> bool" where
  "endsWith s p = (length p \<le> length s \<and> drop (length s - length p) s = p)"

fun str_includes :: "string \<Rightarrow> string \<Rightarrow> bool" where
  "str_includes [] p = (p = [])"
| "str_includes (c # cs) p = (startsWith (c # cs) p \<or> str_includes cs p)"

text \<open>\<^verbatim>\<open>s.split(sep)\<close> for a one-character separator: the pieces between separators,
  empty pieces included.\<close>

fun split_on :: "char \<Rightarrow> string \<Rightarrow> string list" where
  "split_on sep [] = [[]]"
| "split_on sep (c # cs) =
     (if c = sep then [] # split_on sep cs
      else (case split_on sep cs of
              [] \<Rightarrow> [[c]]
            | w # ws \<Rightarrow> (c # w) # ws))"

text \<open>\<^verbatim>\<open>path.split('/').filter(Boolean)\<close>: the non-empty segments.\<close>

definition path_segments :: "string \<Rightarrow> string list" where
  "path_segments p = filter (\<lambda>s. s \<noteq> []) (split_on CHR ''/'' p)"

fun obj_set :: "('k \<times> 'v) list \<Rightarrow> 'k \<Rightarrow> 'v \<Rightarrow> ('k \<times> 'v) list" where
  "obj_set [] k v = [(k, v)]"
| "obj_set ((k', v') # kvs) k v =
     (if k' = k then (k, v) # kvs else (k', v') # obj_set kvs k v)"

section \<open>Route matching\<close>

text \<open>
  A row of the query of \<^verbatim>\<open>findMatchingAPI\<close>: an endpoint joined (LEFT JOIN) with its
  datasource, whose columns are absent when the datasource row is missing.
\<close>

record api =
  api_id :: int
  api_path :: string
  api_method :: string
  api_status :: string
  datasource_id :: int
  sql_template :: string
  require_auth :: int
  ds_name :: "string option"
  ds_type :: "string option"
  ds_status :: "string option"

text \<open>\<^verbatim>\<open>WHERE a.method = ? AND a.status = ?\<close> with \<^verbatim>\<open>[method, 'published']\<close>, rows in
  the order the store returns them.\<close>

definition published_with_method :: "api list \<Rightarrow> string \<Rightarrow> api list" where
  "published_with_method apis m =
     filter (\<lambda>a. api_method a = m \<and> api_status a = ''published'') apis"

definition hasParams :: "string list \<Rightarrow> bool" where
  "hasParams segs = list_ex (\<lambda>seg. startsWith seg '':'') segs"

text \<open>The first loop: endpoints of another segment count are skipped, the others are pushed
  to \<^verbatim>\<open>paramPathAPIs\<close> or \<^verbatim>\<open>fixedPathAPIs\<close>. The state is the pair (fixed, param).\<close>

fun partition_apis :: "string list \<Rightarrow> api list \<Rightarrow> api list \<times> api list \<Rightarrow> api list \<times> api list" where
  "partition_apis req [] acc = acc"
| "partition_apis req (a # as) (fixed, param) =
     (let segs = path_segments (api_path a) in
      if length segs \<noteq> length req then partition_apis req as (fixed, param)
      else if hasParams segs then partition_apis req as (fixed, param @ [a])
      else partition_apis req as (fixed @ [a], param))"

text \<open>
  The inner loop over the endpoint's segments. A \<^verbatim>\<open>:name\<close> segment writes
  \<^verbatim>\<open>pathParams[name]\<close>; another segment must equal the request's segment, else the
  loop breaks with \<^verbatim>\<open>match = false\<close> (\<open>None\<close>). The loop runs over the endpoint's
  segments only. The request's segments cannot run out first, since the first loop keeps
  endpoints of the request's segment count only; that unreachable case is a mismatch here.
\<close>

fun match_segments ::
  "string list \<Rightarrow> string list \<Rightarrow> (string \<times> string) list \<Rightarrow> (string \<times> string) list option" where
  "match_segments [] rs ps = Some ps"
| "match_segments (a # as) [] ps = None"
| "match_segments (a # as) (r # rs) ps =
     (if startsWith a '':'' then match_segments as rs (obj_set ps (drop 1 a) r)
      else if a \<noteq> r then None
      else match_segments as rs ps)"

text \<open>The second loop: the first endpoint of \<^verbatim>\<open>allAPIs\<close> that matches.\<close>

fun first_match :: "string list \<Rightarrow> api list \<Rightarrow> (api \<times> (string \<times> string) list) option" where
  "first_match req [] = None"
| "first_match req (a # as) =
     (case match_segments (path_segments (api_path a)) req [] of
        Some ps \<Rightarrow> Some (a, ps)
      | None \<Rightarrow> first_match req as)"

definition findMatchingAPI ::
  "api list \<Rightarrow> string \<Rightarrow> string \<Rightarrow> (api \<times> (string \<times> string) list) option" where
  "findMatchingAPI store path method =
     (let apis = published_with_method store method;
          requestPathSegments = path_segments path;
          (fixedPathAPIs, paramPathAPIs) = partition_apis requestPathSegments apis ([], []);
          allAPIs = fixedPathAPIs @ paramPathAPIs
      in first_match requestPathSegments allAPIs)"

text \<open>
  The specification's words, for comparison: the candidates are the published endpoints of
  the request's verb and segment count; the fixed ones are tried before the parameterized
  ones, each group in store order; an endpoint matches when every segment is either a
  \<^verbatim>\<open>:name\<close> segment or equal to the request's segment at that position; a match binds
  the \<^verbatim>\<open>:name\<close> segments, in position order, to the request's segments.
\<close>

definition candidates :: "api list \<Rightarrow> string \<Rightarrow> string \<Rightarrow> api list" where
  "candidates store path method =
     filter (\<lambda>a. api_method a = method \<and> api_status a = ''published'' \<and>
                 length (path_segments (api_path a)) = length (path_segments path)) store"

definition segments_match :: "string list \<Rightarrow> string list \<Rightarrow> bool" where
  "segments_match segs req =
     (length segs = length req \<and> list_all (\<lambda>(a, r). startsWith a '':'' \<or> a = r) (zip segs req))"

definition bindings :: "string list \<Rightarrow> string list \<Rightarrow> (string \<times> string) list" where
  "bindings segs req =
     foldl (\<lambda>ps (a, r). obj_set ps (drop 1 a) r) []
       (filter (\<lambda>(a, r). startsWith a '':'') (zip segs req))"

definition route_spec ::
  "api list \<Rightarrow> string \<Rightarrow> string \<Rightarrow> (api \<times> (string \<times> string) list) option" where
  "route_spec store path method =
     (let cs = candidates store path method;
          ordered = filter (\<lambda>a. \<not> hasParams (path_segments (api_path a))) cs @
                    filter (\<lambda>a. hasParams (path_segments (api_path a))) cs
      in map_option (\<lambda>a. (a, bindings (path_segments (api_path a)) (path_segments path)))
           (find (\<lambda>a. segments_match (path_segments (api_path a)) (path_segments path)) ordered))"


text \<open>A fixed-path endpoint that the request reaches: published, of the request's verb,
  without \<^verbatim>\<open>:name\<close> segments, and with the request's segments.\<close>

definition is_fixed_route :: "string \<Rightarrow> string \<Rightarrow> api \<Rightarrow> bool" where
  "is_fixed_route path method a =
     (api_method a = method \<and> api_status a = ''published'' \<and>
      \<not> hasParams (path_segments (api_path a)) \<and>
      path_segments (api_path a) = path_segments path)"

subsection \<open>Example endpoints\<close>

definition users_param :: api where
  "users_param = \<lparr>api_id = 1, api_path = ''/users/:id'', api_method = ''GET'',
     api_status = ''published'', datasource_id = 1,
     sql_template = ''SELECT * FROM users WHERE id = {{id}}'', require_auth = 0,
     ds_name = Some ''main'', ds_type = Some ''mysql'', ds_status = Some ''active''\<rparr>"

definition users_me :: api where
  "users_me = \<lparr>api_id = 2, api_path = ''/users/me'', api_method = ''GET'',
     api_status = ''published'', datasource_id = 1,
     sql_template = ''SELECT * FROM users WHERE id = 1'', require_auth = 0,
     ds_name = Some ''main'', ds_type = Some ''mysql'', ds_status = Some ''active''\<rparr>"

section \<open>Parameter inference\<close>

text \<open>Lower and upper case of the ASCII letters; other characters are unchanged.\<close>

definition upper_letters :: string where
  "upper_letters = ''ABCDEFGHIJKLMNOPQRSTUVWXYZ''"

definition lower_letters :: string where
  "lower_letters = ''abcdefghijklmnopqrstuvwxyz''"

definition toLowerCase :: "string \<Rightarrow> string" where
  "toLowerCase s =
     map (\<lambda>c. case map_of (zip upper_letters lower_letters) c of Some d \<Rightarrow> d | None \<Rightarrow> c) s"

definition toUpperCase :: "string \<Rightarrow> string" where
  "toUpperCase s =
     map (\<lambda>c. case map_of (zip lower_letters upper_letters) c of Some d \<Rightarrow> d | None \<Rightarrow> c) s"

text \<open>The class \<^verbatim>\<open>\w\<close> of the pattern language: letters, digits and the underscore.\<close>

definition is_word_char :: "char \<Rightarrow> bool" where
  "is_word_char c =
     (c \<in> set upper_letters \<or> c \<in> set lower_letters \<or> c \<in> set ''0123456789'' \<or> c = CHR ''_'')"

text \<open>
  One attempt of the pattern \<^verbatim>\<open>\{\{(\w+)\}\}\<close> at the start of a string: two opening
  braces, the longest non-empty run of word characters, two closing braces. (A shorter run
  cannot match: it would be followed by a word character.) The result is the captured name
  and the text after the match.
\<close>

definition match_placeholder :: "string \<Rightarrow> (string \<times> string) option" where
  "match_placeholder s =
     (if startsWith s ''{{'' then
        (let w = takeWhile is_word_char (drop 2 s);
             rest = dropWhile is_word_char (drop 2 s)
         in if w \<noteq> [] \<and> startsWith rest ''}}'' then Some (w, drop 2 rest) else None)
      else None)"

lemma match_placeholder_shorter:
  "match_placeholder s = Some (w, r) \<Longrightarrow> length r < length s"
proof -
  assume h: "match_placeholder s = Some (w, r)"
  then have r: "r = drop 2 (dropWhile is_word_char (drop 2 s))" and s: "startsWith s ''{{''"
    by (auto simp: match_placeholder_def Let_def split: if_splits)
  from s have "2 \<le> length s"
    by (cases s; cases "tl s") (auto simp: startsWith_def)
  moreover have "length (dropWhile is_word_char (drop 2 s)) \<le> length (drop 2 s)"
    by (rule length_dropWhile_le)
  ultimately show ?thesis using r by simp
qed

lemma match_placeholder_shorter_Cons [termination_simp]:
  "match_placeholder (c # cs) = Some (w, r) \<Longrightarrow> length r < Suc (length cs)"
  using match_placeholder_shorter [of "c # cs" w r] by simp

text \<open>The \<^verbatim>\<open>regex.exec\<close> loop of a global pattern: every match from left to right; after
  a match the search continues behind it, after a failed attempt one character further.\<close>

fun placeholder_matches :: "string \<Rightarrow> string list" where
  "placeholder_matches [] = []"
| "placeholder_matches (c # cs) =
     (case match_placeholder (c # cs) of
        Some (w, rest) \<Rightarrow> w # placeholder_matches rest
      | None \<Rightarrow> placeholder_matches cs)"

text \<open>\<^verbatim>\<open>if (!matches.includes(paramName)) matches.push(paramName)\<close>.\<close>

definition push_new :: "string list \<Rightarrow> string \<Rightarrow> string list" where
  "push_new matches paramName = (if paramName \<in> set matches then matches else matches @ [paramName])"

definition extract_names :: "string \<Rightarrow> string list" where
  "extract_names sqlTemplate = foldl push_new [] (placeholder_matches sqlTemplate)"

text \<open>
  A description is a text or, for a name whose lower case is a property that the lookup
  table inherits (\<^verbatim>\<open>constructor\<close>, \<^verbatim>\<open>__proto__\<close>), that inherited object.
\<close>

datatype description = Text string | Inherited string

record ExtractedParameter =
  param_name :: string
  param_type :: string
  data_type :: string
  required :: int
  default_value :: "string option"
  validation_rule :: "string option"
  description :: "description option"

definition inferParamType :: "string \<Rightarrow> string \<Rightarrow> string" where
  "inferParamType paramName sqlTemplate =
     (let commonPathParams = [''id'', ''uuid'', ''pk'', ''primary_key''];
          commonQueryParams = [''limit'', ''offset'', ''order_by'', ''order'', ''sort'', ''search'',
            ''page'', ''size'', ''filter'', ''start_date'', ''end_date'', ''from'', ''to''];
          lowerParamName = toLowerCase paramName
      in if list_ex (\<lambda>p. lowerParamName = p \<or> endsWith lowerParamName (''_'' @ p)) commonPathParams
         then ''path''
         else if list_ex (\<lambda>p. lowerParamName = p \<or> endsWith lowerParamName (''_'' @ p)) commonQueryParams
         then ''query''
         else if str_includes (toLowerCase sqlTemplate) ''insert'' \<or>
                 str_includes (toLowerCase sqlTemplate) ''update''
         then ''body''
         else ''query'')"

text \<open>The patterns of \<^verbatim>\<open>inferDataType\<close>: a pattern \<^verbatim>\<open>/x$/\<close> asks for the suffix
  \<^verbatim>\<open>x\<close>, a pattern \<^verbatim>\<open>/x/\<close> for an occurrence of \<^verbatim>\<open>x\<close>.\<close>

datatype name_pattern = Suffix string | Occurs string

fun pattern_test :: "name_pattern \<Rightarrow> string \<Rightarrow> bool" where
  "pattern_test (Suffix x) s = endsWith s x"
| "pattern_test (Occurs x) s = str_includes s x"

definition numberPatterns :: "name_pattern list" where
  "numberPatterns = map Suffix
     [''id'', ''_id'', ''count'', ''total'', ''sum'', ''avg'', ''max'', ''min'',
      ''limit'', ''offset'', ''page'', ''size'', ''amount'', ''price'', ''quantity'',
      ''age'', ''score'', ''rate'', ''percent'', ''ratio'']"

definition booleanPatterns :: "name_pattern list" where
  "booleanPatterns = [Occurs ''is_'', Occurs ''has_''] @ map Suffix
     [''enabled'', ''disabled'', ''active'', ''inactive'',
      ''deleted'', ''verified'', ''approved'', ''rejected'', ''published'',
      ''visible'', ''hidden'', ''locked'', ''unlocked'']"

definition datePatterns :: "name_pattern list" where
  "datePatterns = map Suffix
     [''date'', ''time'', ''_at'', ''_on'', ''created'', ''updated'', ''deleted'',
      ''start'', ''end'', ''from'', ''to'', ''begin'', ''expire'', ''due'',
      ''birthday'', ''birth_date'', ''join_date'', ''register_date'']"

definition inferDataType :: "string \<Rightarrow> string \<Rightarrow> string" where
  "inferDataType paramName sqlTemplate =
     (let lowerParamName = toLowerCase paramName
      in if list_ex (\<lambda>pattern. pattern_test pattern lowerParamName) numberPatterns then ''number''
         else if list_ex (\<lambda>pattern. pattern_test pattern lowerParamName) booleanPatterns then ''boolean''
         else if list_ex (\<lambda>pattern. pattern_test pattern lowerParamName) datePatterns then ''date''
         else ''string'')"

definition inferRequired :: "string \<Rightarrow> string \<Rightarrow> bool" where
  "inferRequired paramName sqlTemplate =
     (let lowerParamName = toLowerCase paramName;
          commonOptionalParams = [''limit'', ''offset'', ''order_by'', ''order'', ''search'',
            ''page'', ''size'', ''filter'']
      in if lowerParamName \<in> set commonOptionalParams then False
         else if startsWith lowerParamName ''optional_'' then False
         else if endsWith lowerParamName ''_optional'' then False
         else True)"

definition descriptions :: "(string \<times> string) list" where
  "descriptions =
     [(''id'', ''Record identifier''),
      (''limit'', ''Maximum number of records to return''),
      (''offset'', ''Number of records to skip''),
      (''order_by'', ''Column to order by''),
      (''order'', ''Sort order (ASC or DESC)''),
      (''search'', ''Search term for filtering''),
      (''page'', ''Page number''),
      (''size'', ''Page size''),
      (''start_date'', ''Start date for filtering''),
      (''end_date'', ''End date for filtering''),
      (''status'', ''Record status''),
      (''name'', ''Name''),
      (''email'', ''Email address''),
      (''username'', ''Username''),
      (''password'', ''Password''),
      (''created_at'', ''Creation timestamp''),
      (''updated_at'', ''Last update timestamp''),
      (''deleted_at'', ''Deletion timestamp'')]"

text \<open>\<^verbatim>\<open>descriptions[lowerParamName]\<close> reads own properties first, then inherited ones; an
  own empty text would be falsy, like an absent property.\<close>

definition generateDescription :: "string \<Rightarrow> description" where
  "generateDescription paramName =
     (let lowerParamName = toLowerCase paramName
      in case map_of descriptions lowerParamName of
           Some d \<Rightarrow> (if d \<noteq> [] then Text d else Text (paramName @ '' parameter''))
         | None \<Rightarrow>
             (if lowerParamName \<in> set [''constructor'', ''__proto__''] then Inherited lowerParamName
              else Text (paramName @ '' parameter'')))"

definition inferParameter :: "string \<Rightarrow> string \<Rightarrow> ExtractedParameter" where
  "inferParameter paramName sqlTemplate =
     \<lparr>param_name = paramName,
      param_type = inferParamType paramName sqlTemplate,
      data_type = inferDataType paramName sqlTemplate,
      required = (if inferRequired paramName sqlTemplate then 1 else 0),
      default_value = None,
      validation_rule = None,
      description = Some (generateDescription paramName)\<rparr>"

text \<open>\<^verbatim>\<open>if (!sqlTemplate || typeof sqlTemplate !== 'string') return []\<close>: the empty text has
  no parameters.\<close>

definition extractParameters :: "string \<Rightarrow> ExtractedParameter list" where
  "extractParameters sqlTemplate =
     (if sqlTemplate = [] then []
      else map (\<lambda>paramName. inferParameter paramName sqlTemplate) (extract_names sqlTemplate))"

text \<open>\<^verbatim>\<open>new Map(existingParameters.map(p => [p.param_name, p]))\<close>: of two stored entries
  of one name the later one stays.\<close>

definition existingMap :: "ExtractedParameter list \<Rightarrow> string \<Rightarrow> ExtractedParameter option" where
  "existingMap existingParameters = map_of (rev (map (\<lambda>p. (param_name p, p)) existingParameters))"

text \<open>Truthiness of a description: absent and the empty text are falsy.\<close>

fun truthy_description :: "description option \<Rightarrow> bool" where
  "truthy_description None = False"
| "truthy_description (Some (Text d)) = (d \<noteq> [])"
| "truthy_description (Some (Inherited n)) = True"

definition extractParametersWithDefaults ::
  "string \<Rightarrow> ExtractedParameter list \<Rightarrow> ExtractedParameter list" where
  "extractParametersWithDefaults sqlTemplate existingParameters =
     map (\<lambda>param.
            case existingMap existingParameters (param_name param) of
              Some existing \<Rightarrow>
                param\<lparr>param_type := param_type existing,
                      data_type := data_type existing,
                      required := required existing,
                      default_value := default_value existing,
                      validation_rule := validation_rule existing,
                      description := (if truthy_description (description existing)
                                      then description existing else description param)\<rparr>
            | None \<Rightarrow> param)
         (extractParameters sqlTemplate)"

subsection \<open>Example parameters\<close>

definition sql_two_params :: string where
  "sql_two_params = ''SELECT * FROM users WHERE id = {{id}} AND name = {{name}}''"

definition stored_id :: ExtractedParameter where
  "stored_id = \<lparr>param_name = ''id'', param_type = ''query'', data_type = ''string'',
     required = 0, default_value = Some ''1'', validation_rule = Some ''{\"min\":1}'',
     description = Some (Text ''The key'')\<rparr>"

definition stored_old :: ExtractedParameter where
  "stored_old = \<lparr>param_name = ''old'', param_type = ''body'', data_type = ''date'',
     required = 1, default_value = None, validation_rule = None,
     description = Some (Text ''No longer used'')\<rparr>"

definition stored_bare :: ExtractedParameter where
  "stored_bare = \<lparr>param_name = ''id'', param_type = ''query'', data_type = ''string'',
     required = 0, default_value = None, validation_rule = None, description = None\<rparr>"

definition stored_blank :: ExtractedParameter where
  "stored_blank = \<lparr>param_name = ''id'', param_type = ''query'', data_type = ''string'',
     required = 0, default_value = None, validation_rule = None,
     description = Some (Text [])\<rparr>"

section \<open>Connection pool registry\<close>

record DatabaseConfig =
  host :: string
  port :: int
  user :: string
  password :: string
  database :: string
  db_type :: string

text \<open>
  A pool is represented by the configuration it was created with. The registry holds one
  map from pool names to pools per dialect. The drivers are outside the repository: the
  first two create their pool without connecting; for the other two the call connects
  (and, for the third, runs the session statement) and may fail, which the parameter
  \<open>connect\<close> decides (\<open>Some msg\<close> is the driver's error).
\<close>

type_synonym pool = DatabaseConfig

record DatabasePool =
  mysqlPools :: "string \<rightharpoonup> pool"
  pgPools :: "string \<rightharpoonup> pool"
  mssqlPools :: "string \<rightharpoonup> pool"
  oraclePools :: "string \<rightharpoonup> pool"

datatype pool_error =
    AlreadyExists string string
  | NotFound string string
  | UnsupportedType string
  | DriverError string

definition createMySQLPool :: "DatabasePool \<Rightarrow> DatabaseConfig \<Rightarrow> string \<Rightarrow> pool_error + DatabasePool" where
  "createMySQLPool reg config poolName =
     (if mysqlPools reg poolName \<noteq> None then Inl (AlreadyExists ''MySQL'' poolName)
      else Inr (reg\<lparr>mysqlPools := (mysqlPools reg)(poolName \<mapsto> config)\<rparr>))"

definition createPostgreSQLPool :: "DatabasePool \<Rightarrow> DatabaseConfig \<Rightarrow> string \<Rightarrow> pool_error + DatabasePool" where
  "createPostgreSQLPool reg config poolName =
     (if pgPools reg poolName \<noteq> None then Inl (AlreadyExists ''PostgreSQL'' poolName)
      else Inr (reg\<lparr>pgPools := (pgPools reg)(poolName \<mapsto> config)\<rparr>))"

definition createMSSQLPool ::
  "(DatabaseConfig \<Rightarrow> string option) \<Rightarrow> DatabasePool \<Rightarrow> DatabaseConfig \<Rightarrow> string \<Rightarrow> pool_error + DatabasePool" where
  "createMSSQLPool connect reg config poolName =
     (if mssqlPools reg poolName \<noteq> None then Inl (AlreadyExists ''MSSQL'' poolName)
      else (case connect config of
              Some msg \<Rightarrow> Inl (DriverError msg)
            | None \<Rightarrow> Inr (reg\<lparr>mssqlPools := (mssqlPools reg)(poolName \<mapsto> config)\<rparr>)))"

definition createOraclePool ::
  "(DatabaseConfig \<Rightarrow> string option) \<Rightarrow> DatabasePool \<Rightarrow> DatabaseConfig \<Rightarrow> string \<Rightarrow> pool_error + DatabasePool" where
  "createOraclePool connect reg config poolName =
     (if oraclePools reg poolName \<noteq> None then Inl (AlreadyExists ''Oracle'' poolName)
      else (case connect config of
              Some msg \<Rightarrow> Inl (DriverError msg)
            | None \<Rightarrow> Inr (reg\<lparr>oraclePools := (oraclePools reg)(poolName \<mapsto> config)\<rparr>)))"

definition createPool ::
  "(DatabaseConfig \<Rightarrow> string option) \<Rightarrow> DatabasePool \<Rightarrow> DatabaseConfig \<Rightarrow> string \<Rightarrow> pool_error + DatabasePool" where
  "createPool connect reg config poolName =
     (if db_type config = ''mysql'' then createMySQLPool reg config poolName
      else if db_type config = ''postgresql'' then createPostgreSQLPool reg config poolName
      else if db_type config = ''mssql'' then createMSSQLPool connect reg config poolName
      else if db_type config = ''oracle'' then createOraclePool connect reg config poolName
      else Inl (UnsupportedType (db_type config)))"

text \<open>\<^verbatim>\<open>getPool\<close>: the pool of a name in the map of a dialect.\<close>

definition getPool :: "DatabasePool \<Rightarrow> string \<Rightarrow> string \<Rightarrow> pool_error + pool" where
  "getPool reg poolName t =
     (if t = ''mysql'' then
        (case mysqlPools reg poolName of None \<Rightarrow> Inl (NotFound ''MySQL'' poolName) | Some p \<Rightarrow> Inr p)
      else if t = ''postgresql'' then
        (case pgPools reg poolName of None \<Rightarrow> Inl (NotFound ''PostgreSQL'' poolName) | Some p \<Rightarrow> Inr p)
      else if t = ''mssql'' then
        (case mssqlPools reg poolName of None \<Rightarrow> Inl (NotFound ''MSSQL'' poolName) | Some p \<Rightarrow> Inr p)
      else if t = ''oracle'' then
        (case oraclePools reg poolName of None \<Rightarrow> Inl (NotFound ''Oracle'' poolName) | Some p \<Rightarrow> Inr p)
      else Inl (UnsupportedType t))"

definition supported_types :: "string list" where
  "supported_types = [''mysql'', ''postgresql'', ''mssql'', ''oracle'']"

text \<open>Whether a name is registered for a dialect, and whether the driver of a dialect
  connects when its pool is created.\<close>

definition registered :: "DatabasePool \<Rightarrow> string \<Rightarrow> string \<Rightarrow> bool" where
  "registered reg t poolName = (\<not> isl (getPool reg poolName t))"

definition connects_on_create :: "string \<Rightarrow> bool" where
  "connects_on_create t = (t = ''mssql'' \<or> t = ''oracle'')"

subsection \<open>Example registry\<close>

definition no_pools :: DatabasePool where
  "no_pools = \<lparr>mysqlPools = Map.empty, pgPools = Map.empty, mssqlPools = Map.empty,
     oraclePools = Map.empty\<rparr>"

definition mssql_config :: DatabaseConfig where
  "mssql_config = \<lparr>host = ''db.example'', port = 1433, user = ''sa'', password = ''secret'',
     database = ''sales'', db_type = ''mssql''\<rparr>"

definition mysql_config :: DatabaseConfig where
  "mysql_config = \<lparr>host = ''db.example'', port = 3306, user = ''root'', password = ''secret'',
     database = ''sales'', db_type = ''mysql''\<rparr>"

section \<open>Parameter values and validation\<close>

text \<open>
  The values of a parameter bag: texts, integers, booleans and \<^verbatim>\<open>null\<close>. Any other
  value (a number that is no integer, an array, an object) is carried as \<open>JOther\<close> with the
  text that \<^verbatim>\<open>String(value)\<close> gives for it.
\<close>

datatype jsval = JStr string | JNum int | JBool bool | JNull | JOther string

type_synonym bag = "(string \<times> jsval) list"

text \<open>The decimal text of an integer, as \<^verbatim>\<open>String\<close> gives it for an integer of
  magnitude below \<open>10\<^sup>2\<^sup>1\<close> (from there on the language prints an exponent).\<close>

definition digit_char :: "nat \<Rightarrow> char" where
  "digit_char d = ''0123456789'' ! d"

fun decimal_digits :: "nat \<Rightarrow> string" where
  "decimal_digits n =
     (if 10 \<le> n then decimal_digits (n div 10) else []) @ [digit_char (n mod 10)]"

definition number_text :: "int \<Rightarrow> string" where
  "number_text i =
     (if 0 \<le> i then decimal_digits (nat i) else CHR ''-'' # decimal_digits (nat (- i)))"

text \<open>\<^verbatim>\<open>String(value)\<close>.\<close>

fun js_String :: "jsval \<Rightarrow> string" where
  "js_String (JStr s) = s"
| "js_String (JNum i) = number_text i"
| "js_String (JBool b) = (if b then ''true'' else ''false'')"
| "js_String JNull = ''null''"
| "js_String (JOther s) = s"

text \<open>White space, as far as it is ASCII: tab, line feed, vertical tab, form feed, carriage
  return and space. The no-break space and the other white space beyond ASCII, which
  \<^verbatim>\<open>trim\<close> and \<^verbatim>\<open>\s\<close> take as well, are outside this reading of texts.\<close>

definition is_space :: "char \<Rightarrow> bool" where
  "is_space c = (c \<in> set [CHR 0x09, CHR 0x0A, CHR 0x0B, CHR 0x0C, CHR 0x0D, CHR 0x20])"

definition trim :: "string \<Rightarrow> string" where
  "trim s = rev (dropWhile is_space (rev (dropWhile is_space s)))"

fun sanitizeInput :: "jsval \<Rightarrow> jsval" where
  "sanitizeInput (JStr s) = JStr (trim s)"
| "sanitizeInput v = v"

text \<open>
  A stored parameter (a row of \<^verbatim>\<open>api_parameters\<close>) has the fields of an extracted
  parameter; its row id and endpoint id play no part here, the store hands out the rows of
  one endpoint. The validation library is outside the repository. Of the schema that
  \<^verbatim>\<open>buildJoiSchema\<close> builds for a stored parameter, the model keeps what the repository
  decides: the key (the parameter's name; of two parameters of one name the later one stays)
  and the presence (\<^verbatim>\<open>required()\<close> when the stored flag is \<open>1\<close>, else
  \<^verbatim>\<open>optional()\<close>). A required key that is absent is the library's error
  \<^verbatim>\<open>any.required\<close>; an optional absent key is no error. What the library does with a
  value that is present (conversion to the type, minimum, maximum, pattern, enumeration,
  format) is the parameter \<open>rule\<close>: its error message, if any. The converted value that the
  library returns is not used by the source and is not modelled.
\<close>

type_synonym value_rule = "ExtractedParameter \<Rightarrow> jsval \<Rightarrow> string option"

definition buildJoiSchema :: "ExtractedParameter list \<Rightarrow> (string \<times> ExtractedParameter) list" where
  "buildJoiSchema parameters = foldl (\<lambda>schemaObj param. obj_set schemaObj (param_name param) param) [] parameters"

definition validate_key :: "value_rule \<Rightarrow> ExtractedParameter \<Rightarrow> jsval option \<Rightarrow> string option" where
  "validate_key rule param v =
     (case v of
        None \<Rightarrow> (if required param = 1 then Some (''\"'' @ param_name param @ ''\" is required'') else None)
      | Some x \<Rightarrow> rule param x)"

text \<open>\<^verbatim>\<open>schema.validate(params, { abortEarly: false, stripUnknown: true })\<close>: the error
  details, one per failing key of the schema, in schema order; keys of the bag that the
  schema does not have are no error.\<close>

definition schema_validate :: "value_rule \<Rightarrow> (string \<times> ExtractedParameter) list \<Rightarrow> bag \<Rightarrow> (string \<times> string) list" where
  "schema_validate rule schema params =
     concat (map (\<lambda>(key, param).
                    case validate_key rule param (map_of params key) of
                      None \<Rightarrow> []
                    | Some message \<Rightarrow> [(key, message)]) schema)"

record validation =
  valid :: bool
  sanitizedParams :: "bag option"
  errors :: "(string \<times> string) list option"

definition validateRequest :: "value_rule \<Rightarrow> ExtractedParameter list \<Rightarrow> bag \<Rightarrow> validation" where
  "validateRequest rule parameters params =
     (if length parameters = 0 then \<lparr>valid = True, sanitizedParams = None, errors = None\<rparr>
      else
        (let schema = buildJoiSchema parameters;
             details = schema_validate rule schema params
         in if details \<noteq> [] then
              \<lparr>valid = False, sanitizedParams = None,
               errors = Some (foldl (\<lambda>errors (path, message). obj_set errors path message) [] details)\<rparr>
            else \<lparr>valid = True, sanitizedParams = None, errors = None\<rparr>))"

definition validateAndSanitizeRequest :: "value_rule \<Rightarrow> ExtractedParameter list \<Rightarrow> bag \<Rightarrow> validation" where
  "validateAndSanitizeRequest rule parameters params =
     (let sanitized = map (\<lambda>(key, value). (key, sanitizeInput value)) params;
          validationResult = validateRequest rule parameters sanitized
      in if \<not> valid validationResult then validationResult
         else \<lparr>valid = True, sanitizedParams = Some sanitized, errors = None\<rparr>)"



subsection \<open>Example validation input\<close>

definition param_id_number :: ExtractedParameter where
  "param_id_number = \<lparr>param_name = ''id'', param_type = ''path'', data_type = ''number'',
     required = 1, default_value = None, validation_rule = None,
     description = Some (Text ''Record identifier'')\<rparr>"

text \<open>A rule of the library's kind for the examples: a number wants a number. (The
  library itself also takes a text that reads as a number; the examples do not use one.)\<close>

fun number_rule :: value_rule where
  "number_rule param (JNum i) = None"
| "number_rule param v =
     (if data_type param = ''number'' then Some (''\"'' @ param_name param @ ''\" must be a number'')
      else None)"

section \<open>SQL rendering\<close>

definition placeholder :: "string \<Rightarrow> string" where
  "placeholder key = ''{{'' @ key @ ''}}''"

text \<open>
  The replacement text of \<^verbatim>\<open>String.prototype.replace\<close> is a template: in it
  \<^verbatim>\<open>$$\<close> stands for a dollar sign, \<^verbatim>\<open>$&\<close> for the matched text, \<^verbatim>\<open>$`\<close> for the
  subject before the match and \<^verbatim>\<open>$'\<close> for the subject after it. The patterns of this
  code have no groups, so \<^verbatim>\<open>$1\<close> and the like stand for themselves.
\<close>

fun expand_replacement :: "string \<Rightarrow> string \<Rightarrow> string \<Rightarrow> string \<Rightarrow> string" where
  "expand_replacement [] matched pre post = []"
| "expand_replacement [c] matched pre post = [c]"
| "expand_replacement (c # d # r) matched pre post =
     (if c = CHR ''$'' \<and> d = CHR ''$'' then CHR ''$'' # expand_replacement r matched pre post
      else if c = CHR ''$'' \<and> d = CHR ''&'' then matched @ expand_replacement r matched pre post
      else if c = CHR ''$'' \<and> d = CHR 0x60 then pre @ expand_replacement r matched pre post
      else if c = CHR ''$'' \<and> d = CHR 0x27 then post @ expand_replacement r matched pre post
      else c # expand_replacement (d # r) matched pre post)"

text \<open>
  \<^verbatim>\<open>subject.replace(new RegExp(pat, 'g'), replacement)\<close> for a pattern \<open>pat\<close> that
  stands for itself: the occurrences of \<open>pat\<close> from left to right, not overlapping, each
  replaced by the expanded template. \<open>pre\<close> is the part of the subject already passed.
\<close>

function replace_scan :: "string \<Rightarrow> string \<Rightarrow> string \<Rightarrow> string \<Rightarrow> string" where
  "replace_scan pat replacement pre [] = []"
| "replace_scan pat replacement pre (c # cs) =
     (if pat \<noteq> [] \<and> startsWith (c # cs) pat then
        expand_replacement replacement pat pre (drop (length pat) (c # cs)) @
        replace_scan pat replacement (pre @ pat) (drop (length pat) (c # cs))
      else c # replace_scan pat replacement (pre @ [c]) cs)"
  by pat_completeness auto
termination
  by (relation "measure (\<lambda>(pat, replacement, pre, s). length s)") auto

definition replace_all_literal :: "string \<Rightarrow> string \<Rightarrow> string \<Rightarrow> string" where
  "replace_all_literal pat replacement subject = replace_scan pat replacement [] subject"

text \<open>
  The pattern is built from the key without escaping. For a key of word characters that
  are not all digits the pattern \<^verbatim>\<open>{{key}}\<close> has no metacharacter and no braced
  quantifier and stands for itself. For any other key the pattern language decides what is
  replaced, or rejects the pattern: that is the parameter \<open>engine\<close> (\<open>Inl\<close> is the
  error's message).
\<close>

definition is_digit :: "char \<Rightarrow> bool" where
  "is_digit c = (c \<in> set ''0123456789'')"

definition plain_key :: "string \<Rightarrow> bool" where
  "plain_key key = (list_all is_word_char key \<and> \<not> (key \<noteq> [] \<and> list_all is_digit key))"

type_synonym regex_engine = "string \<Rightarrow> string \<Rightarrow> string \<Rightarrow> string + string"

definition replace_placeholder :: "regex_engine \<Rightarrow> string \<Rightarrow> string \<Rightarrow> string \<Rightarrow> string + string" where
  "replace_placeholder engine key replacement sql =
     (if plain_key key then Inr (replace_all_literal (placeholder key) replacement sql)
      else engine (placeholder key) replacement sql)"

text \<open>\<^verbatim>\<open>String(value).replace(/'/g, "''")\<close>.\<close>

definition escape_quotes :: "string \<Rightarrow> string" where
  "escape_quotes s = concat (map (\<lambda>c. if c = CHR 0x27 then [CHR 0x27, CHR 0x27] else [c]) s)"

text \<open>One round of the rendering loop, on the state (sql, queryParams).\<close>

definition render_step ::
  "regex_engine \<Rightarrow> string \<times> jsval list \<Rightarrow> string \<times> jsval \<Rightarrow> string + string \<times> jsval list" where
  "render_step engine st entry =
     (let (sql, queryParams) = st;
          (key, value) = entry;
          directReplaceParams = [''order_by'', ''order'', ''limit''];
          searchParam = ''search''
      in if str_includes sql (placeholder key) then
           (if key = searchParam then
              (let escapedValue = escape_quotes (js_String value);
                   replaceValue = [CHR 0x27] @ ''%'' @ escapedValue @ ''%'' @ [CHR 0x27]
               in case replace_placeholder engine key replaceValue sql of
                    Inl e \<Rightarrow> Inl e
                  | Inr sql' \<Rightarrow> Inr (sql', queryParams))
            else if key \<in> set directReplaceParams then
              (let replaceValue = js_String value
               in case replace_placeholder engine key replaceValue sql of
                    Inl e \<Rightarrow> Inl e
                  | Inr sql' \<Rightarrow> Inr (sql', queryParams))
            else
              (case replace_placeholder engine key ''?'' sql of
                 Inl e \<Rightarrow> Inl e
               | Inr sql' \<Rightarrow> Inr (sql', queryParams @ [value])))
         else Inr (sql, queryParams))"

text \<open>The loop over \<^verbatim>\<open>Object.entries(sanitizedParams)\<close>; an error ends it.\<close>

fun render_loop ::
  "regex_engine \<Rightarrow> string \<times> jsval list \<Rightarrow> bag \<Rightarrow> string + string \<times> jsval list" where
  "render_loop engine st [] = Inr st"
| "render_loop engine st (entry # entries) =
     (case render_step engine st entry of
        Inl e \<Rightarrow> Inl e
      | Inr st' \<Rightarrow> render_loop engine st' entries)"

definition render :: "regex_engine \<Rightarrow> string \<Rightarrow> bag \<Rightarrow> string + string \<times> jsval list" where
  "render engine sqlTemplate params = render_loop engine (sqlTemplate, []) params"

text \<open>The specification's words, for comparison: every occurrence of a text replaced by
  another text as it is.\<close>

function substitute_all :: "string \<Rightarrow> string \<Rightarrow> string \<Rightarrow> string" where
  "substitute_all pat text [] = []"
| "substitute_all pat text (c # cs) =
     (if pat \<noteq> [] \<and> startsWith (c # cs) pat
      then text @ substitute_all pat text (drop (length pat) (c # cs))
      else c # substitute_all pat text cs)"
  by pat_completeness auto
termination
  by (relation "measure (\<lambda>(pat, text, s). length s)") auto

section \<open>Row cap\<close>

text \<open>\<^verbatim>\<open>sql.lastIndexOf(';')\<close> and the insertion before that position.\<close>

fun lastIndexOf :: "string \<Rightarrow> char \<Rightarrow> nat option" where
  "lastIndexOf [] ch = None"
| "lastIndexOf (c # cs) ch =
     (case lastIndexOf cs ch of
        Some i \<Rightarrow> Some (Suc i)
      | None \<Rightarrow> (if c = ch then Some 0 else None))"

definition insert_limit :: "string \<Rightarrow> string \<Rightarrow> string" where
  "insert_limit sql limitClause =
     (case lastIndexOf sql CHR '';'' of
        Some lastSemicolon \<Rightarrow> take lastSemicolon sql @ limitClause @ drop lastSemicolon sql
      | None \<Rightarrow> sql @ limitClause)"

text \<open>\<^verbatim>\<open>sql.replace(/^SELECT\s+/i, 'SELECT TOP 1000 ')\<close>: the pattern is tried at the start
  of the text only, and takes the word and all white space after it.\<close>

definition replace_leading_select :: "string \<Rightarrow> string" where
  "replace_leading_select sql =
     (if toUpperCase (take 6 sql) = ''SELECT'' \<and> takeWhile is_space (drop 6 sql) \<noteq> []
      then ''SELECT TOP 1000 '' @ dropWhile is_space (drop 6 sql)
      else sql)"

definition apply_row_cap :: "string option \<Rightarrow> string \<Rightarrow> string" where
  "apply_row_cap api_type sql =
     (let trimmedSql = toUpperCase (trim sql)
      in if startsWith trimmedSql ''SELECT'' then
           (if api_type = Some ''mysql'' \<or> api_type = Some ''postgresql'' then
              (if \<not> str_includes trimmedSql '' LIMIT '' \<and> \<not> endsWith trimmedSql '' LIMIT''
               then insert_limit sql '' LIMIT 1000'' else sql)
            else if api_type = Some ''mssql'' then
              (if \<not> str_includes trimmedSql '' TOP '' then replace_leading_select sql else sql)
            else if api_type = Some ''oracle'' then
              (if \<not> str_includes trimmedSql '' ROWNUM '' \<and> \<not> str_includes trimmedSql '' FETCH FIRST ''
               then insert_limit sql '' FETCH FIRST 1000 ROWS ONLY'' else sql)
            else sql)
         else sql)"

section \<open>Usage statistics\<close>

text \<open>
  A row of \<^verbatim>\<open>api_call_stats\<close>, unique per (api_id, date). The average is a REAL
  column, modelled by an exact real number; \<open>None\<close> is \<^verbatim>\<open>NULL\<close> (the store's
  result of a division by zero, and of arithmetic on \<^verbatim>\<open>NULL\<close>).
\<close>

record stats_row =
  call_count :: int
  success_count :: int
  failure_count :: int
  avg_response_time :: "real option"
  last_called_at :: string

type_synonym stats_table = "int \<times> string \<rightharpoonup> stats_row"

text \<open>
  The update expression
  \<^verbatim>\<open>(avg_response_time * (call_count - 1) + ?) / call_count\<close>. In the
  \<^verbatim>\<open>DO UPDATE SET\<close> clause of the store a column name on the right-hand side is the
  value of the row before the update.
\<close>

definition updated_average :: "stats_row \<Rightarrow> int \<Rightarrow> real option" where
  "updated_average row t =
     (case avg_response_time row of
        None \<Rightarrow> None
      | Some avg \<Rightarrow>
          (if call_count row = 0 then None
           else Some ((avg * real_of_int (call_count row - 1) + real_of_int t) /
                        real_of_int (call_count row))))"

definition upsert_success :: "stats_table \<Rightarrow> int \<Rightarrow> int \<Rightarrow> string \<Rightarrow> string \<Rightarrow> stats_table" where
  "upsert_success stats apiId t now today =
     (case stats (apiId, today) of
        None \<Rightarrow>
          stats((apiId, today) \<mapsto>
            \<lparr>call_count = 1, success_count = 1, failure_count = 0,
             avg_response_time = Some (real_of_int t), last_called_at = now\<rparr>)
      | Some row \<Rightarrow>
          stats((apiId, today) \<mapsto>
            row\<lparr>call_count := call_count row + 1,
                success_count := success_count row + 1,
                avg_response_time := updated_average row t,
                last_called_at := now\<rparr>))"

definition upsert_failure :: "stats_table \<Rightarrow> int \<Rightarrow> string \<Rightarrow> string \<Rightarrow> stats_table" where
  "upsert_failure stats apiId now today =
     (case stats (apiId, today) of
        None \<Rightarrow>
          stats((apiId, today) \<mapsto>
            \<lparr>call_count = 1, success_count = 0, failure_count = 1,
             avg_response_time = Some 0, last_called_at = now\<rparr>)
      | Some row \<Rightarrow>
          stats((apiId, today) \<mapsto>
            row\<lparr>call_count := call_count row + 1,
                failure_count := failure_count row + 1,
                last_called_at := now\<rparr>))"

text \<open>The specification's running average, from the count and average before the update.\<close>

definition running_average :: "real \<Rightarrow> int \<Rightarrow> int \<Rightarrow> real" where
  "running_average old_avg old_count new_duration =
     (old_avg * real_of_int old_count + real_of_int new_duration) / real_of_int (old_count + 1)"

section \<open>The execution handler\<close>

datatype log_message = Message string | FieldErrors "(string \<times> string) list"

record access_log =
  log_api_id :: int
  log_user_id :: "int option"
  ip_address :: string
  user_agent :: string
  request_params :: bag
  response_status :: int
  execution_time :: int
  log_status :: string
  error_message :: "log_message option"
  created_at :: string
  timezone_offset :: int

text \<open>The metadata store: the endpoints joined with their datasources, the stored
  parameters of each endpoint in the order of their ids, the access log and the statistics.\<close>

record store =
  apis :: "api list"
  api_parameters :: "int \<Rightarrow> ExtractedParameter list"
  api_access_logs :: "access_log list"
  api_call_stats :: stats_table

record token_permissions =
  tp_type :: string
  tp_apis :: "int list option"

text \<open>
  A request as the handler reads it: \<^verbatim>\<open>req.params.path\<close> (the wildcard of the
  route; an index key under which the router may hold it as well is left out), the method,
  the query and
  the body as bags, the principal and the token permissions that the authentication
  middleware left (a permissions text that does not parse, or no permissions, is \<open>None\<close>;
  an \<^verbatim>\<open>apis\<close> property that is no array is \<open>None\<close>), the client's address and agent.
\<close>

record request =
  req_path :: string
  req_method :: string
  req_query :: bag
  req_body :: bag
  userId :: "int option"
  tokenPermissions :: "token_permissions option"
  client_ip :: string
  client_agent :: string

type_synonym rows = "bag list"

text \<open>
  What the handler gets from outside the repository during one request: the validation
  library's value rules, the pattern engine for keys that do not stand for themselves, the
  outcome of the query on the datasource (\<open>Inl\<close> is the driver's error message), the clock
  and the configured time zone offset, and the measured duration in milliseconds. The
  operations on the metadata store are taken to succeed.
\<close>

record env =
  rule :: value_rule
  engine :: regex_engine
  executeQuery :: "string \<Rightarrow> string \<Rightarrow> jsval list \<Rightarrow> string option \<Rightarrow> string + rows"
  now :: string
  timezoneOffset :: int
  executionTime :: int

datatype response =
    NotFound404
  | DatasourceInactive503 "string option"
  | Unauthenticated401
  | Forbidden403
  | ValidationFailed400 "(string \<times> string) list"
  | Success200 rows int
  | Failed500 string

fun status_code :: "response \<Rightarrow> int" where
  "status_code NotFound404 = 404"
| "status_code (DatasourceInactive503 n) = 503"
| "status_code Unauthenticated401 = 401"
| "status_code Forbidden403 = 403"
| "status_code (ValidationFailed400 e) = 400"
| "status_code (Success200 r t) = 200"
| "status_code (Failed500 m) = 500"

definition checkApiPermission :: "token_permissions option \<Rightarrow> api \<Rightarrow> bool" where
  "checkApiPermission perms a =
     (case perms of
        None \<Rightarrow> False
      | Some p \<Rightarrow>
          (if tp_type p \<noteq> ''categories'' then False
           else (case tp_apis p of
                   None \<Rightarrow> False
                 | Some ids \<Rightarrow> (if length ids = 0 then False else api_id a \<in> set ids))))"

text \<open>\<^verbatim>\<open>Object.assign(target, source)\<close> and the spread of several objects into one.\<close>

definition obj_assign :: "('k \<times> 'v) list \<Rightarrow> ('k \<times> 'v) list \<Rightarrow> ('k \<times> 'v) list" where
  "obj_assign target source = foldl (\<lambda>obj (k, v). obj_set obj k v) target source"

text \<open>\<^verbatim>\<open>req.userId || null\<close>: the id \<open>0\<close> is falsy.\<close>

definition user_or_null :: "int option \<Rightarrow> int option" where
  "user_or_null u = (if u = Some 0 then None else u)"

text \<open>\<^verbatim>\<open>now.split(' ')[0]\<close>.\<close>

definition today_of :: "string \<Rightarrow> string" where
  "today_of n = takeWhile (\<lambda>c. c \<noteq> CHR '' '') n"

definition failure_log ::
  "env \<Rightarrow> request \<Rightarrow> int \<Rightarrow> int option \<Rightarrow> bag \<Rightarrow> int \<Rightarrow> log_message \<Rightarrow> access_log" where
  "failure_log e r apiId uid params code msg =
     \<lparr>log_api_id = apiId, log_user_id = uid, ip_address = client_ip r,
      user_agent = client_agent r, request_params = params, response_status = code,
      execution_time = 0, log_status = ''failure'', error_message = Some msg,
      created_at = now e, timezone_offset = timezoneOffset e\<rparr>"

text \<open>A rejection before the execution: one access log entry and the failure upsert.\<close>

definition record_failure ::
  "env \<Rightarrow> store \<Rightarrow> request \<Rightarrow> int \<Rightarrow> int option \<Rightarrow> bag \<Rightarrow> int \<Rightarrow> log_message \<Rightarrow> store" where
  "record_failure e st r apiId uid params code msg =
     st\<lparr>api_access_logs := api_access_logs st @ [failure_log e r apiId uid params code msg],
        api_call_stats := upsert_failure (api_call_stats st) apiId (now e) (today_of (now e))\<rparr>"

text \<open>The path and the method that the handler matches.\<close>

definition request_path :: "request \<Rightarrow> string" where
  "request_path r = (if \<not> startsWith (req_path r) ''/'' then ''/'' @ req_path r else req_path r)"

definition request_method :: "request \<Rightarrow> string" where
  "request_method r = toUpperCase (req_method r)"

text \<open>
  The \<^verbatim>\<open>catch\<close> block. The endpoint is looked up again, among all endpoints of any
  status, by the text \<^verbatim>\<open>`/${req.params.path}`\<close> and the method; the log entry and the
  upsert are made only when that lookup finds a row, and the entry holds the query alone.
\<close>

definition on_error :: "env \<Rightarrow> store \<Rightarrow> request \<Rightarrow> string \<Rightarrow> string \<Rightarrow> response \<times> store" where
  "on_error e st r params_path message =
     (let found = filter (\<lambda>a. api_path a = ''/'' @ params_path \<and>
                              api_method a = request_method r) (apis st);
          st' = (case found of
                   [] \<Rightarrow> st
                 | a # _ \<Rightarrow>
                     record_failure e st r (api_id a) (user_or_null (userId r)) (req_query r) 500
                       (Message (if message = [] then ''Unknown error'' else message)))
      in (Failed500 (if message = [] then ''Failed to execute API'' else message), st'))"

text \<open>\<^verbatim>\<open>req.params.path\<close> after \<^verbatim>\<open>Object.assign(req.params, pathParams)\<close>: a path
  parameter named \<^verbatim>\<open>path\<close> replaces it.\<close>

definition params_path_of :: "bag \<Rightarrow> string" where
  "params_path_of params = (case map_of params ''path'' of Some v \<Rightarrow> js_String v | None \<Rightarrow> [])"

text \<open>\<^verbatim>\<open>req.params\<close> after \<^verbatim>\<open>Object.assign(req.params, pathParams)\<close>, and
  \<^verbatim>\<open>{ ...req.params, ...req.query, ...req.body }\<close>.\<close>

definition route_params :: "request \<Rightarrow> (string \<times> string) list \<Rightarrow> bag" where
  "route_params r pathParams =
     obj_assign [(''path'', JStr (req_path r))] (map (\<lambda>(k, v). (k, JStr v)) pathParams)"

definition all_params :: "request \<Rightarrow> (string \<times> string) list \<Rightarrow> bag" where
  "all_params r pathParams =
     obj_assign (obj_assign (route_params r pathParams) (req_query r)) (req_body r)"

definition success_log :: "env \<Rightarrow> request \<Rightarrow> api \<Rightarrow> bag \<Rightarrow> access_log" where
  "success_log e r a allParams =
     \<lparr>log_api_id = api_id a, log_user_id = user_or_null (userId r), ip_address = client_ip r,
      user_agent = client_agent r, request_params = allParams, response_status = 200,
      execution_time = executionTime e, log_status = ''success'', error_message = None,
      created_at = now e, timezone_offset = timezoneOffset e\<rparr>"


text \<open>Rendering, row cap and execution of a validated request, with the success entry and
  upsert, or the \<^verbatim>\<open>catch\<close> block.\<close>

definition run_sql ::
  "env \<Rightarrow> store \<Rightarrow> request \<Rightarrow> api \<Rightarrow> (string \<times> string) list \<Rightarrow> bag \<Rightarrow> response \<times> store" where
  "run_sql e st r a pathParams sanitized =
     (case render (engine e) (sql_template a) sanitized of
        Inl message \<Rightarrow> on_error e st r (params_path_of (route_params r pathParams)) message
      | Inr (sql, queryParams) \<Rightarrow>
          (case executeQuery e (''ds_'' @ number_text (datasource_id a))
                  (apply_row_cap (ds_type a) sql) queryParams (ds_type a) of
             Inl message \<Rightarrow> on_error e st r (params_path_of (route_params r pathParams)) message
           | Inr results \<Rightarrow>
               (Success200 results (executionTime e),
                st\<lparr>api_access_logs :=
                     api_access_logs st @ [success_log e r a (all_params r pathParams)],
                   api_call_stats :=
                     upsert_success (api_call_stats st) (api_id a)
                       (executionTime e) (now e) (today_of (now e))\<rparr>)))"

definition execute_api :: "env \<Rightarrow> store \<Rightarrow> request \<Rightarrow> response \<times> store" where
  "execute_api e st r =
     (case findMatchingAPI (apis st) (request_path r) (request_method r) of
        None \<Rightarrow> (NotFound404, st)
      | Some (a, pathParams) \<Rightarrow>
          (let allParams = all_params r pathParams
           in if ds_status a \<noteq> Some ''active'' then
                (DatasourceInactive503 (ds_name a),
                 record_failure e st r (api_id a) (user_or_null (userId r)) allParams 503
                   (Message ''Datasource is not active''))
              else if require_auth a = 1 \<and> user_or_null (userId r) = None then
                (Unauthenticated401,
                 record_failure e st r (api_id a) None allParams 401
                   (Message ''Authentication required''))
              else if require_auth a = 1 \<and> \<not> checkApiPermission (tokenPermissions r) a then
                (Forbidden403,
                 record_failure e st r (api_id a) (userId r) allParams 403
                   (Message ''Permission denied''))
              else
                (let validationResult =
                       validateAndSanitizeRequest (rule e) (api_parameters st (api_id a)) allParams
                 in if \<not> valid validationResult then
                      (ValidationFailed400 (case errors validationResult of Some es \<Rightarrow> es | None \<Rightarrow> []),
                       record_failure e st r (api_id a) (user_or_null (userId r)) allParams 400
                         (FieldErrors (case errors validationResult of Some es \<Rightarrow> es | None \<Rightarrow> [])))
                    else
                      run_sql e st r a pathParams
                        (case sanitizedParams validationResult of
                           Some s \<Rightarrow> s | None \<Rightarrow> allParams))))"

section \<open>Example requests\<close>

definition reject_pattern :: regex_engine where
  "reject_pattern pat replacement subject = Inl ''Invalid regular expression''"

definition env_ok :: env where
  "env_ok = \<lparr>rule = number_rule, engine = reject_pattern,
     executeQuery = (\<lambda>poolName sql params t. Inr []),
     now = ''2024-05-01 10:00:05'', timezoneOffset = 8, executionTime = 200\<rparr>"

definition env_down :: env where
  "env_down = \<lparr>rule = number_rule, engine = reject_pattern,
     executeQuery = (\<lambda>poolName sql params t. Inl ''connect ETIMEDOUT''),
     now = ''2024-05-01 10:00:05'', timezoneOffset = 8, executionTime = 200\<rparr>"

definition store_users :: store where
  "store_users = \<lparr>apis = [users_param], api_parameters = (\<lambda>i. []), api_access_logs = [],
     api_call_stats = Map.empty\<rparr>"

definition get_user_42 :: request where
  "get_user_42 = \<lparr>req_path = ''users/42'', req_method = ''GET'', req_query = [], req_body = [],
     userId = None, tokenPermissions = None, client_ip = ''10.0.0.7'',
     client_agent = ''curl/8.0''\<rparr>"

definition orders_api :: api where
  "orders_api = \<lparr>api_id = 3, api_path = ''/orders'', api_method = ''GET'',
     api_status = ''published'', datasource_id = 1,
     sql_template = ''SELECT * FROM orders WHERE customer = {{customer}}'', require_auth = 1,
     ds_name = Some ''main'', ds_type = Some ''mysql'', ds_status = Some ''active''\<rparr>"

definition orders_row :: stats_row where
  "orders_row = \<lparr>call_count = 3, success_count = 3, failure_count = 0,
     avg_response_time = Some 120, last_called_at = ''2024-05-01 09:00:00''\<rparr>"

definition store_orders :: store where
  "store_orders = \<lparr>apis = [orders_api], api_parameters = (\<lambda>i. []), api_access_logs = [],
     api_call_stats = [(3, ''2024-05-01'') \<mapsto> orders_row]\<rparr>"

definition get_orders :: request where
  "get_orders = \<lparr>req_path = ''orders'', req_method = ''GET'', req_query = [], req_body = [],
     userId = None, tokenPermissions = None, client_ip = ''10.0.0.7'',
     client_agent = ''curl/8.0''\<rparr>"



text \<open>The statistics after one successful request of 100 ms to endpoint 1.\<close>

definition one_success_stats :: stats_table where
  "one_success_stats =
     [(1, ''2024-05-01'') \<mapsto>
        \<lparr>call_count = 1, success_count = 1, failure_count = 0,
         avg_response_time = Some 100, last_called_at = ''2024-05-01 10:00:00''\<rparr>]"

section \<open>Properties of route matching\<close>

lemma partition_apis_eq:
  "partition_apis req as (fixed, param) =
     (fixed @ filter (\<lambda>a. length (path_segments (api_path a)) = length req \<and>
                          \<not> hasParams (path_segments (api_path a))) as,
      param @ filter (\<lambda>a. length (path_segments (api_path a)) = length req \<and>
                          hasParams (path_segments (api_path a))) as)"
  by (induction as arbitrary: fixed param) (simp_all add: Let_def)

lemma match_segments_Some:
  "length segs = length req \<Longrightarrow>
   match_segments segs req ps =
     (if list_all (\<lambda>(a, r). startsWith a '':'' \<or> a = r) (zip segs req)
      then Some (foldl (\<lambda>ps (a, r). obj_set ps (drop 1 a) r) ps
                   (filter (\<lambda>(a, r). startsWith a '':'') (zip segs req)))
      else None)"
proof (induction segs req ps rule: match_segments.induct)
  case (1 rs ps)
  then show ?case by simp
next
  case (2 a as ps)
  then show ?case by simp
next
  case (3 a as r rs ps)
  then show ?case by (cases "startsWith a '':''") auto
qed

lemma first_match_find:
  "\<forall>a \<in> set as. length (path_segments (api_path a)) = length req \<Longrightarrow>
   first_match req as =
     map_option (\<lambda>a. (a, bindings (path_segments (api_path a)) req))
       (find (\<lambda>a. segments_match (path_segments (api_path a)) req) as)"
proof (induction as)
  case Nil
  then show ?case by simp
next
  case (Cons a as)
  then have len: "length (path_segments (api_path a)) = length req" by simp
  from Cons have IH: "first_match req as =
     map_option (\<lambda>a. (a, bindings (path_segments (api_path a)) req))
       (find (\<lambda>a. segments_match (path_segments (api_path a)) req) as)" by simp
  show ?case
    using len IH
    by (simp add: match_segments_Some segments_match_def bindings_def)
qed

lemma findMatchingAPI_refines:
  "findMatchingAPI store path method = route_spec store path method"
proof -
  let ?req = "path_segments path"
  let ?cs = "candidates store path method"
  let ?ordered = "filter (\<lambda>a. \<not> hasParams (path_segments (api_path a))) ?cs @
                  filter (\<lambda>a. hasParams (path_segments (api_path a))) ?cs"
  have part: "partition_apis ?req (published_with_method store method) ([], []) =
      (filter (\<lambda>a. \<not> hasParams (path_segments (api_path a))) ?cs,
       filter (\<lambda>a. hasParams (path_segments (api_path a))) ?cs)"
    unfolding partition_apis_eq published_with_method_def candidates_def
    by (auto intro!: filter_cong)
  have all_len: "\<forall>a \<in> set ?ordered. length (path_segments (api_path a)) = length ?req"
    by (auto simp: candidates_def)
  have "findMatchingAPI store path method = first_match ?req ?ordered"
    by (simp add: findMatchingAPI_def part)
  also have "\<dots> = route_spec store path method"
    unfolding route_spec_def Let_def by (rule first_match_find [OF all_len])
  finally show ?thesis .
qed

lemma find_filter: "find P (filter Q xs) = find (\<lambda>x. Q x \<and> P x) xs"
  by (induction xs) auto

lemma find_app:
  "find P (xs @ ys) = (case find P xs of Some x \<Rightarrow> Some x | None \<Rightarrow> find P ys)"
  by (induction xs) auto

lemma fixed_segments_match:
  "\<not> hasParams segs \<Longrightarrow> segments_match segs req = (segs = req)"
  unfolding hasParams_def segments_match_def
proof (induction segs arbitrary: req)
  case Nil
  then show ?case by auto
next
  case (Cons a segs)
  then show ?case by (cases req) auto
qed

lemma fixed_bindings: "\<not> hasParams segs \<Longrightarrow> bindings segs req = []"
proof -
  assume h: "\<not> hasParams segs"
  have "filter (\<lambda>(a, r). startsWith a '':'') (zip segs req) = []"
    using h unfolding hasParams_def
    by (auto simp: filter_empty_conv list_ex_iff dest: set_zip_leftD)
  then show ?thesis by (simp add: bindings_def)
qed

lemma fixed_route_found:
  assumes "f \<in> set store" "is_fixed_route path method f"
  shows "\<exists>a. find (is_fixed_route path method) store = Some a \<and>
             findMatchingAPI store path method = Some (a, [])"
proof -
  let ?req = "path_segments path"
  let ?cs = "candidates store path method"
  let ?fx = "filter (\<lambda>a. \<not> hasParams (path_segments (api_path a))) ?cs"
  have eq: "find (\<lambda>a. segments_match (path_segments (api_path a)) ?req) ?fx =
            find (is_fixed_route path method) store"
    unfolding candidates_def find_filter
    by (rule arg_cong2 [where f = find, OF _ refl], rule ext)
       (auto simp: is_fixed_route_def fixed_segments_match)
  from assms obtain a where a: "find (is_fixed_route path method) store = Some a"
    by (cases "find (is_fixed_route path method) store") (auto simp: find_None_iff)
  then have fa: "is_fixed_route path method a"
    by (auto simp: find_Some_iff)
  have "route_spec store path method = Some (a, bindings (path_segments (api_path a)) ?req)"
    unfolding route_spec_def Let_def find_app eq a by simp
  moreover have "bindings (path_segments (api_path a)) ?req = []"
    using fa fixed_bindings unfolding is_fixed_route_def by blast
  ultimately show ?thesis using a by (simp add: findMatchingAPI_refines)
qed

text \<open>
  Claim C4. Route matching is first-fit over an ordered candidate list: it returns what
  the specification's algorithm returns (only published endpoints of the request's verb
  and segment count, the fixed paths before the parameterized ones, \<^verbatim>\<open>:name\<close>
  segments bound by position, the first endpoint whose every segment matches, and nothing
  when none does). In particular, whenever some fixed-path endpoint matches the request,
  the result is the first such fixed-path endpoint of the store, with no path parameter,
  whatever parameterized endpoints match as well.
\<close>

theorem route_matching_first_fit:
  "findMatchingAPI store path method = route_spec store path method \<and>
   (\<forall>f. f \<in> set store \<and> is_fixed_route path method f \<longrightarrow>
      (\<exists>a. find (is_fixed_route path method) store = Some a \<and>
           findMatchingAPI store path method = Some (a, [])))"
  using findMatchingAPI_refines fixed_route_found by blast

lemma path_segments_users_me: "path_segments ''/users/me'' = [''users'', ''me'']"
  by (simp add: path_segments_def)

lemma users_me_fixed: "is_fixed_route ''/users/me'' ''GET'' users_me"
  by (simp add: is_fixed_route_def users_me_def path_segments_users_me hasParams_def
      startsWith_def)

lemma users_param_not_fixed: "\<not> is_fixed_route ''/users/me'' ''GET'' users_param"
  by (simp add: is_fixed_route_def users_param_def path_segments_def hasParams_def
      startsWith_def)

theorem route_matching_first_fit_witness:
  "users_me \<in> set [users_param, users_me] \<and> is_fixed_route ''/users/me'' ''GET'' users_me \<and>
   segments_match (path_segments (api_path users_param)) (path_segments ''/users/me'') \<and>
   findMatchingAPI [users_param, users_me] ''/users/me'' ''GET'' = Some (users_me, [])"
proof -
  have m: "users_me \<in> set [users_param, users_me]" by simp
  have pm: "segments_match (path_segments (api_path users_param)) (path_segments ''/users/me'')"
    by (simp add: segments_match_def users_param_def path_segments_def startsWith_def)
  from route_matching_first_fit [of "[users_param, users_me]" "''/users/me''" "''GET''"]
    m users_me_fixed
  obtain a where a: "find (is_fixed_route ''/users/me'' ''GET'') [users_param, users_me] = Some a"
    and r: "findMatchingAPI [users_param, users_me] ''/users/me'' ''GET'' = Some (a, [])"
    by blast
  from a have "a = users_me"
    by (simp add: users_me_fixed users_param_not_fixed)
  with m users_me_fixed pm r show ?thesis by simp
qed

section \<open>Properties of parameter reconciliation\<close>

lemma foldl_push_new_distinct: "distinct acc \<Longrightarrow> distinct (foldl push_new acc ws)"
  by (induction ws arbitrary: acc) (auto simp: push_new_def)

lemma distinct_extract_names: "distinct (extract_names sql)"
  by (simp add: extract_names_def foldl_push_new_distinct)

lemma extract_names_Nil: "extract_names [] = []"
  by (simp add: extract_names_def)

lemma extractParameters_names: "map param_name (extractParameters sql) = extract_names sql"
  by (simp add: extractParameters_def extract_names_Nil inferParameter_def comp_def)

lemma merged_names:
  "map param_name (extractParametersWithDefaults sql stored) = extract_names sql"
proof -
  have "map param_name (extractParametersWithDefaults sql stored) =
        map param_name (extractParameters sql)"
    unfolding extractParametersWithDefaults_def
    by (simp add: comp_def split: option.splits cong: map_cong)
  then show ?thesis by (simp add: extractParameters_names)
qed

lemma existingMap_None: "(existingMap stored n = None) = (n \<notin> param_name ` set stored)"
  by (auto simp: existingMap_def map_of_eq_None_iff image_iff)

lemma existingMap_Some: "existingMap stored n = Some p \<Longrightarrow> p \<in> set stored \<and> param_name p = n"
  unfolding existingMap_def by (auto dest!: map_of_SomeD)

lemma merged_member:
  assumes "m \<in> set (extractParametersWithDefaults sql stored)"
  shows "(case existingMap stored (param_name m) of
            None \<Rightarrow> m = inferParameter (param_name m) sql
          | Some p \<Rightarrow>
              param_type m = param_type p \<and> data_type m = data_type p \<and>
              required m = required p \<and> default_value m = default_value p \<and>
              validation_rule m = validation_rule p \<and>
              description m = (if truthy_description (description p) then description p
                               else Some (generateDescription (param_name m))))"
proof -
  from assms obtain param where p1: "param \<in> set (extractParameters sql)"
    and m0: "m = (case existingMap stored (param_name param) of
              Some existing \<Rightarrow>
                param\<lparr>param_type := param_type existing,
                      data_type := data_type existing,
                      required := required existing,
                      default_value := default_value existing,
                      validation_rule := validation_rule existing,
                      description := (if truthy_description (description existing)
                                      then description existing else description param)\<rparr>
            | None \<Rightarrow> param)"
    unfolding extractParametersWithDefaults_def by auto
  from p1 obtain n where param: "param = inferParameter n sql"
    unfolding extractParameters_def by (auto split: if_splits)
  have pn0: "param_name param = n" by (simp add: param inferParameter_def)
  note m = m0 [unfolded pn0 param]
  have pn: "param_name m = n"
    unfolding m by (simp add: inferParameter_def split: option.splits)
  show ?thesis
    unfolding pn unfolding m by (simp add: inferParameter_def split: option.splits)
qed

lemma startsWith_append: "startsWith (p @ r) p"
  by (simp add: startsWith_def)

lemma str_includes_prefix: "startsWith s p \<Longrightarrow> str_includes s p"
  by (cases s) (auto simp: startsWith_def)

lemma str_includes_append_left: "str_includes ys p \<Longrightarrow> str_includes (xs @ ys) p"
  by (induction xs) auto

lemma match_placeholder_shape:
  "match_placeholder s = Some (w, r) \<Longrightarrow> s = ''{{'' @ w @ ''}}'' @ r"
proof -
  assume h: "match_placeholder s = Some (w, r)"
  let ?t = "drop 2 s"
  from h have s: "startsWith s ''{{''" and w: "w = takeWhile is_word_char ?t"
    and e: "startsWith (dropWhile is_word_char ?t) ''}}''"
    and r: "r = drop 2 (dropWhile is_word_char ?t)"
    by (auto simp: match_placeholder_def Let_def split: if_splits)
  from s have "s = ''{{'' @ ?t"
    by (metis append_take_drop_id length_Cons list.size(3) numeral_2_eq_2 startsWith_def)
  moreover have "?t = w @ dropWhile is_word_char ?t"
    by (simp add: w)
  moreover from e have "dropWhile is_word_char ?t = ''}}'' @ r"
    unfolding r startsWith_def
    by (metis append_take_drop_id length_Cons list.size(3) numeral_2_eq_2)
  ultimately show ?thesis by metis
qed

lemma placeholder_matches_sound:
  "w \<in> set (placeholder_matches s) \<Longrightarrow> str_includes s (''{{'' @ w @ ''}}'')"
proof (induction s rule: placeholder_matches.induct)
  case 1
  then show ?case by simp
next
  case (2 c cs)
  show ?case
  proof (cases "match_placeholder (c # cs)")
    case None
    with 2 show ?thesis by simp
  next
    case (Some a)
    obtain v r where a: "a = (v, r)" by (cases a)
    from match_placeholder_shape [OF Some [unfolded a]]
    have shape: "c # cs = (''{{'' @ v @ ''}}'') @ r" by simp
    from 2(3) Some a have "w = v \<or> w \<in> set (placeholder_matches r)" by simp
    then show ?thesis
    proof
      assume "w = v"
      then show ?thesis
        unfolding shape by (intro str_includes_prefix) (simp add: startsWith_def)
    next
      assume "w \<in> set (placeholder_matches r)"
      with 2(2) Some a have "str_includes r (''{{'' @ w @ ''}}'')" by simp
      then show ?thesis unfolding shape by (rule str_includes_append_left)
    qed
  qed
qed

lemma foldl_push_new_set: "set (foldl push_new acc ws) = set acc \<union> set ws"
  by (induction ws arbitrary: acc) (auto simp: push_new_def)

lemma extract_names_occur:
  "n \<in> set (extract_names sql) \<Longrightarrow> str_includes sql (''{{'' @ n @ ''}}'')"
proof -
  assume "n \<in> set (extract_names sql)"
  then have "n \<in> set (placeholder_matches sql)"
    by (simp add: extract_names_def foldl_push_new_set)
  then show ?thesis by (rule placeholder_matches_sound)
qed

text \<open>
  Claim C7, as stated, fails: a stored parameter \<^verbatim>\<open>id\<close> whose description is the
  empty text is reconciled to an entry that carries the freshly inferred description, not
  the stored one; likewise when the stored description is absent.
\<close>

theorem reconcile_description_counterexample:
  "map param_name (extractParametersWithDefaults ''SELECT * FROM users WHERE id = {{id}}'' [stored_blank])
     = [param_name stored_blank] \<and>
   description stored_blank = Some (Text []) \<and>
   map description (extractParametersWithDefaults ''SELECT * FROM users WHERE id = {{id}}'' [stored_blank])
     = [Some (Text ''Record identifier'')] \<and>
   description stored_bare = None \<and>
   map description (extractParametersWithDefaults ''SELECT * FROM users WHERE id = {{id}}'' [stored_bare])
     = [Some (Text ''Record identifier'')]"
  by code_simp

text \<open>
  Claim C7, amended. For every SQL text and stored parameter list, the merged list has
  exactly the extracted names, each once and in first-occurrence order. A merged entry
  whose name is stored (the table of stored entries holds, of two entries of one name, the
  later one) keeps the stored location, data type, required flag, default value and
  validation rule, and keeps the stored description when that is a non-empty text;
  otherwise its description is the freshly inferred one. An entry whose name is not stored
  is the fresh inference. A stored parameter whose name is not extracted from the SQL text
  (in particular one whose \<^verbatim>\<open>{{name}}\<close> token does not occur in the text) is not in
  the merged list.
\<close>

theorem reconcile_merges_by_name:
  "map param_name (extractParametersWithDefaults sql stored) = extract_names sql \<and>
   distinct (extract_names sql) \<and>
   (\<forall>m \<in> set (extractParametersWithDefaults sql stored).
      case existingMap stored (param_name m) of
        None \<Rightarrow> param_name m \<notin> param_name ` set stored \<and> m = inferParameter (param_name m) sql
      | Some p \<Rightarrow>
          p \<in> set stored \<and> param_name p = param_name m \<and>
          param_type m = param_type p \<and> data_type m = data_type p \<and>
          required m = required p \<and> default_value m = default_value p \<and>
          validation_rule m = validation_rule p \<and>
          description m = (if truthy_description (description p) then description p
                           else Some (generateDescription (param_name m)))) \<and>
   (\<forall>p \<in> set stored. param_name p \<notin> set (extract_names sql) \<longrightarrow>
      param_name p \<notin> param_name ` set (extractParametersWithDefaults sql stored)) \<and>
   (\<forall>p \<in> set stored. \<not> str_includes sql (''{{'' @ param_name p @ ''}}'') \<longrightarrow>
      param_name p \<notin> param_name ` set (extractParametersWithDefaults sql stored))"
proof (intro conjI ballI impI)
  show "map param_name (extractParametersWithDefaults sql stored) = extract_names sql"
    by (rule merged_names)
  show "distinct (extract_names sql)"
    by (rule distinct_extract_names)
next
  fix m
  assume "m \<in> set (extractParametersWithDefaults sql stored)"
  from merged_member [OF this] show
    "case existingMap stored (param_name m) of
        None \<Rightarrow> param_name m \<notin> param_name ` set stored \<and> m = inferParameter (param_name m) sql
      | Some p \<Rightarrow>
          p \<in> set stored \<and> param_name p = param_name m \<and>
          param_type m = param_type p \<and> data_type m = data_type p \<and>
          required m = required p \<and> default_value m = default_value p \<and>
          validation_rule m = validation_rule p \<and>
          description m = (if truthy_description (description p) then description p
                           else Some (generateDescription (param_name m)))"
    by (auto split: option.splits simp: existingMap_None [symmetric] dest: existingMap_Some)
next
  fix p
  assume "p \<in> set stored" "param_name p \<notin> set (extract_names sql)"
  then show "param_name p \<notin> param_name ` set (extractParametersWithDefaults sql stored)"
    using merged_names [of sql stored] by (metis set_map)
next
  fix p
  assume "p \<in> set stored" "\<not> str_includes sql (''{{'' @ param_name p @ ''}}'')"
  then have "param_name p \<notin> set (extract_names sql)"
    using extract_names_occur by blast
  then show "param_name p \<notin> param_name ` set (extractParametersWithDefaults sql stored)"
    using merged_names [of sql stored] by (metis set_map)
qed

lemma extract_names_two: "extract_names sql_two_params = [''id'', ''name'']"
  by code_simp

lemma merged_two:
  "extractParametersWithDefaults sql_two_params [stored_id, stored_old] =
     [stored_id, inferParameter ''name'' sql_two_params]"
  by code_simp

theorem reconcile_merges_by_name_witness:
  "stored_id \<in> set (extractParametersWithDefaults sql_two_params [stored_id, stored_old]) \<and>
   existingMap [stored_id, stored_old] (param_name stored_id) = Some stored_id \<and>
   truthy_description (description stored_id) \<and>
   stored_old \<in> set [stored_id, stored_old] \<and>
   param_name stored_old \<notin> set (extract_names sql_two_params) \<and>
   \<not> str_includes sql_two_params (''{{'' @ param_name stored_old @ ''}}'') \<and>
   param_name stored_old \<notin>
     param_name ` set (extractParametersWithDefaults sql_two_params [stored_id, stored_old]) \<and>
   map param_name (extractParametersWithDefaults sql_two_params [stored_id, stored_old]) =
     [''id'', ''name'']"
proof -
  have a: "stored_id \<in> set (extractParametersWithDefaults sql_two_params [stored_id, stored_old])"
    by (simp add: merged_two)
  have b: "existingMap [stored_id, stored_old] (param_name stored_id) = Some stored_id"
    by (simp add: existingMap_def stored_id_def stored_old_def)
  have c: "truthy_description (description stored_id)"
    by (simp add: stored_id_def)
  have d: "param_name stored_old \<notin> set (extract_names sql_two_params)"
    by (simp add: extract_names_two stored_old_def)
  have e: "stored_old \<in> set [stored_id, stored_old]" by simp
  have h: "\<not> str_includes sql_two_params (''{{'' @ param_name stored_old @ ''}}'')"
    by code_simp
  from reconcile_merges_by_name [of sql_two_params "[stored_id, stored_old]"] d e
  have f: "param_name stored_old \<notin>
     param_name ` set (extractParametersWithDefaults sql_two_params [stored_id, stored_old])"
    and g: "map param_name (extractParametersWithDefaults sql_two_params [stored_id, stored_old]) =
       extract_names sql_two_params"
    by blast+
  from a b c d e f g h show ?thesis by (simp add: extract_names_two)
qed

section \<open>Properties of the pool registry\<close>

text \<open>
  Claim C8, as stated, fails: for a supported dialect whose driver connects at creation
  and a name under which no pool is registered in any map, \<^verbatim>\<open>createPool\<close> still throws
  when the driver cannot connect, and registers nothing.
\<close>

theorem createPool_driver_error_counterexample:
  "db_type mssql_config \<in> set supported_types \<and>
   \<not> registered no_pools ''mysql'' ''ds_1'' \<and> \<not> registered no_pools ''postgresql'' ''ds_1'' \<and>
   \<not> registered no_pools ''mssql'' ''ds_1'' \<and> \<not> registered no_pools ''oracle'' ''ds_1'' \<and>
   createPool (\<lambda>c. Some ''ECONNREFUSED'') no_pools mssql_config ''ds_1''
     = Inl (DriverError ''ECONNREFUSED'')"
  by (simp add: supported_types_def registered_def getPool_def no_pools_def mssql_config_def
      createPool_def createMSSQLPool_def)

lemma createPool_throws:
  "isl (createPool connect reg config poolName) =
     (db_type config \<notin> set supported_types \<or>
      registered reg (db_type config) poolName \<or>
      (connects_on_create (db_type config) \<and> connect config \<noteq> None))"
  by (auto simp: createPool_def createMySQLPool_def createPostgreSQLPool_def
      createMSSQLPool_def createOraclePool_def supported_types_def registered_def getPool_def
      connects_on_create_def split: option.splits)

lemma getPool_mysql_upd:
  "getPool (reg\<lparr>mysqlPools := (mysqlPools reg)(n \<mapsto> c)\<rparr>) k t =
     (if t = ''mysql'' \<and> k = n then Inr c else getPool reg k t)"
  by (simp add: getPool_def)

lemma getPool_pg_upd:
  "getPool (reg\<lparr>pgPools := (pgPools reg)(n \<mapsto> c)\<rparr>) k t =
     (if t = ''postgresql'' \<and> k = n then Inr c else getPool reg k t)"
  by (simp add: getPool_def)

lemma getPool_mssql_upd:
  "getPool (reg\<lparr>mssqlPools := (mssqlPools reg)(n \<mapsto> c)\<rparr>) k t =
     (if t = ''mssql'' \<and> k = n then Inr c else getPool reg k t)"
  by (simp add: getPool_def)

lemma getPool_oracle_upd:
  "getPool (reg\<lparr>oraclePools := (oraclePools reg)(n \<mapsto> c)\<rparr>) k t =
     (if t = ''oracle'' \<and> k = n then Inr c else getPool reg k t)"
  by (simp add: getPool_def)

lemma createPool_result:
  assumes "createPool connect reg config poolName = Inr reg'"
  shows "getPool reg' k t =
     (if t = db_type config \<and> k = poolName then Inr config else getPool reg k t)"
proof -
  consider "db_type config = ''mysql''" | "db_type config = ''postgresql''"
    | "db_type config = ''mssql''" | "db_type config = ''oracle''"
    using assms by (auto simp: createPool_def split: if_splits)
  then show ?thesis
  proof cases
    case 1
    with assms have "reg' = reg\<lparr>mysqlPools := (mysqlPools reg)(poolName \<mapsto> config)\<rparr>"
      by (simp add: createPool_def createMySQLPool_def split: if_splits)
    then show ?thesis using 1 by (simp only: getPool_mysql_upd)
  next
    case 2
    with assms have "reg' = reg\<lparr>pgPools := (pgPools reg)(poolName \<mapsto> config)\<rparr>"
      by (simp add: createPool_def createPostgreSQLPool_def split: if_splits)
    then show ?thesis using 2 by (simp only: getPool_pg_upd)
  next
    case 3
    with assms have "reg' = reg\<lparr>mssqlPools := (mssqlPools reg)(poolName \<mapsto> config)\<rparr>"
      by (simp add: createPool_def createMSSQLPool_def split: if_splits option.splits)
    then show ?thesis using 3 by (simp only: getPool_mssql_upd)
  next
    case 4
    with assms have "reg' = reg\<lparr>oraclePools := (oraclePools reg)(poolName \<mapsto> config)\<rparr>"
      by (simp add: createPool_def createOraclePool_def split: if_splits option.splits)
    then show ?thesis using 4 by (simp only: getPool_oracle_upd)
  qed
qed

lemma createPool_registers:
  assumes "createPool connect reg config poolName = Inr reg'"
  shows "getPool reg' poolName (db_type config) = Inr config"
    and "(t, k) \<noteq> (db_type config, poolName) \<Longrightarrow> getPool reg' k t = getPool reg k t"
  using createPool_result [OF assms] by auto

text \<open>
  Claim C8, amended. \<^verbatim>\<open>createPool\<close> throws if and only if the configuration's dialect
  is not one of the four supported ones, or a pool is already registered under the name in
  the map of that dialect (a pool of the same name in another dialect's map does not
  count), or the dialect's driver connects at creation (the third and fourth dialects) and
  fails. In all other cases the pool is registered under the name in the dialect's map and
  every other entry of the registry is unchanged.
\<close>

theorem createPool_throws_iff:
  "isl (createPool connect reg config poolName) =
     (db_type config \<notin> set supported_types \<or>
      registered reg (db_type config) poolName \<or>
      (connects_on_create (db_type config) \<and> connect config \<noteq> None)) \<and>
   (\<forall>reg'. createPool connect reg config poolName = Inr reg' \<longrightarrow>
      getPool reg' poolName (db_type config) = Inr config \<and>
      (\<forall>t k. (t, k) \<noteq> (db_type config, poolName) \<longrightarrow> getPool reg' k t = getPool reg k t))"
proof (intro conjI allI impI)
  show "isl (createPool connect reg config poolName) =
     (db_type config \<notin> set supported_types \<or>
      registered reg (db_type config) poolName \<or>
      (connects_on_create (db_type config) \<and> connect config \<noteq> None))"
    by (rule createPool_throws)
next
  fix reg'
  assume "createPool connect reg config poolName = Inr reg'"
  then show "getPool reg' poolName (db_type config) = Inr config"
    by (rule createPool_registers(1))
next
  fix reg' t k
  assume "createPool connect reg config poolName = Inr reg'"
    and "(t, k) \<noteq> (db_type config, poolName)"
  then show "getPool reg' k t = getPool reg k t"
    by (rule createPool_registers(2))
qed

theorem createPool_throws_iff_witness:
  "createPool (\<lambda>c. None) no_pools mysql_config ''ds_1''
     = Inr (no_pools\<lparr>mysqlPools := [''ds_1'' \<mapsto> mysql_config]\<rparr>) \<and>
   getPool (no_pools\<lparr>mysqlPools := [''ds_1'' \<mapsto> mysql_config]\<rparr>) ''ds_1'' (db_type mysql_config)
     = Inr mysql_config \<and>
   (''postgresql'', ''ds_1'') \<noteq> (db_type mysql_config, ''ds_1'') \<and>
   getPool (no_pools\<lparr>mysqlPools := [''ds_1'' \<mapsto> mysql_config]\<rparr>) ''ds_1'' ''postgresql''
     = getPool no_pools ''ds_1'' ''postgresql''"
proof -
  have c: "createPool (\<lambda>c. None) no_pools mysql_config ''ds_1''
     = Inr (no_pools\<lparr>mysqlPools := [''ds_1'' \<mapsto> mysql_config]\<rparr>)"
    by (simp add: createPool_def createMySQLPool_def no_pools_def mysql_config_def)
  have d: "(''postgresql'', ''ds_1'') \<noteq> (db_type mysql_config, ''ds_1'')"
    by (simp add: mysql_config_def)
  note th = createPool_throws_iff [of "\<lambda>c. None" no_pools mysql_config "''ds_1''"]
  note r = th [THEN conjunct2, rule_format, OF c]
  note r1 = r [THEN conjunct1]
  note r2 = r [THEN conjunct2, rule_format, OF d]
  show ?thesis by (intro conjI c r1 d r2)
qed

text \<open>The duplicate check is per dialect: a name registered for one dialect can be
  registered again for another.\<close>

lemma createPool_same_name_other_dialect:
  "registered (no_pools\<lparr>mysqlPools := [''ds_1'' \<mapsto> mysql_config]\<rparr>) ''mysql'' ''ds_1'' \<and>
   \<not> isl (createPool (\<lambda>c. None) (no_pools\<lparr>mysqlPools := [''ds_1'' \<mapsto> mysql_config]\<rparr>)
          mssql_config ''ds_1'')"
  by (simp add: registered_def getPool_def createPool_def createMSSQLPool_def no_pools_def
      mssql_config_def)

section \<open>Properties of the usage statistics and of the handler\<close>

lemma upsert_success_existing:
  "stats (i, d) = Some row \<Longrightarrow>
   upsert_success stats i t n d =
     stats((i, d) \<mapsto> row\<lparr>call_count := call_count row + 1,
                            success_count := success_count row + 1,
                            avg_response_time := updated_average row t,
                            last_called_at := n\<rparr>)"
  by (simp add: upsert_success_def)

lemma updated_average_formula:
  "avg_response_time row = Some a \<Longrightarrow> call_count row \<noteq> 0 \<Longrightarrow>
   updated_average row t =
     Some ((a * real_of_int (call_count row - 1) + real_of_int t) / real_of_int (call_count row))"
  by (simp add: updated_average_def)

text \<open>
  Claim C1 holds of the specification and fails on the code. Two successful requests of
  100 ms and 200 ms to one endpoint on one day: the second upsert finds the row with count
  1 and average 100 and stores the average 200, where the running average from the count
  before the update is 150. The update expression reads \<^verbatim>\<open>call_count\<close> as if it were
  already incremented, but in the store it is the count before the update.
\<close>

theorem success_upsert_average_off_by_one:
  "upsert_success Map.empty 1 100 ''2024-05-01 10:00:00'' ''2024-05-01'' (1, ''2024-05-01'') =
     Some \<lparr>call_count = 1, success_count = 1, failure_count = 0,
           avg_response_time = Some 100, last_called_at = ''2024-05-01 10:00:00''\<rparr> \<and>
   upsert_success (upsert_success Map.empty 1 100 ''2024-05-01 10:00:00'' ''2024-05-01'')
       1 200 ''2024-05-01 10:00:05'' ''2024-05-01'' (1, ''2024-05-01'') =
     Some \<lparr>call_count = 2, success_count = 2, failure_count = 0,
           avg_response_time = Some 200, last_called_at = ''2024-05-01 10:00:05''\<rparr> \<and>
   running_average 100 1 200 = 150"
  by (simp add: upsert_success_def updated_average_def running_average_def)

lemma upsert_failure_existing:
  "stats (i, d) = Some row \<Longrightarrow>
   upsert_failure stats i n d =
     stats((i, d) \<mapsto> row\<lparr>call_count := call_count row + 1,
                            failure_count := failure_count row + 1,
                            last_called_at := n\<rparr>)"
  by (simp add: upsert_failure_def)

lemma upsert_failure_frame:
  assumes "stats k = Some row"
  shows "\<exists>row'. upsert_failure stats i n d k = Some row' \<and>
           avg_response_time row' = avg_response_time row \<and>
           success_count row' = success_count row \<and>
           (row' = row \<or>
            row' = row\<lparr>call_count := call_count row + 1,
                       failure_count := failure_count row + 1,
                       last_called_at := n\<rparr>)"
proof (cases "k = (i, d)")
  case True
  with assms show ?thesis by (simp add: upsert_failure_def)
next
  case False
  with assms show ?thesis by (auto simp: upsert_failure_def split: option.splits)
qed

lemma on_error_cases:
  assumes "on_error e st r p m = (resp, st')" "P st"
    and "\<And>i u ps c msg. P (record_failure e st r i u ps c msg)"
  shows "P st'"
  using assms by (auto simp: on_error_def Let_def split: list.splits)

lemma on_error_status: "on_error e st r p m = (resp, st') \<Longrightarrow> status_code resp = 500"
  by (auto simp: on_error_def Let_def)

lemma run_sql_failure_cases:
  assumes ex: "run_sql e st r a pp s = (resp, st')" and ns: "status_code resp \<noteq> 200"
    and P0: "P st"
    and P1: "\<And>i u ps c msg. P (record_failure e st r i u ps c msg)"
  shows "P st'"
proof -
  note oe = on_error_cases [where P = P, OF _ P0 P1]
  from ex ns show ?thesis
    unfolding run_sql_def
    by (auto split: sum.splits prod.splits intro: oe)
qed

lemma run_sql_status:
  "run_sql e st r a pp s = (resp, st') \<Longrightarrow> status_code resp = 200 \<or> status_code resp = 500"
  unfolding run_sql_def
  by (auto split: sum.splits prod.splits dest: on_error_status)

lemma execute_api_failure_cases:
  assumes ex: "execute_api e st r = (resp, st')" and ns: "status_code resp \<noteq> 200"
    and P0: "P st"
    and P1: "\<And>i u ps c msg. P (record_failure e st r i u ps c msg)"
  shows "P st'"
proof (cases "findMatchingAPI (apis st) (request_path r) (request_method r)")
  case None
  with ex P0 show ?thesis by (simp add: execute_api_def)
next
  case (Some m)
  obtain a pp where m: "m = (a, pp)" by (cases m)
  note rs = run_sql_failure_cases [where P = P, OF _ ns P0 P1]
  from ex ns show ?thesis
    unfolding execute_api_def Let_def Some m
    by (auto split: if_splits intro: P1 rs)
qed

lemma execute_api_failure_frame:
  assumes ex: "execute_api e st r = (resp, st')" and ns: "status_code resp \<noteq> 200"
    and row: "api_call_stats st k = Some row"
  shows "\<exists>row'. api_call_stats st' k = Some row' \<and>
           avg_response_time row' = avg_response_time row \<and>
           success_count row' = success_count row \<and>
           (row' = row \<or>
            row' = row\<lparr>call_count := call_count row + 1,
                       failure_count := failure_count row + 1,
                       last_called_at := now e\<rparr>)"
proof (rule execute_api_failure_cases [OF ex ns])
  show "\<exists>row'. api_call_stats st k = Some row' \<and>
           avg_response_time row' = avg_response_time row \<and>
           success_count row' = success_count row \<and>
           (row' = row \<or>
            row' = row\<lparr>call_count := call_count row + 1,
                       failure_count := failure_count row + 1,
                       last_called_at := now e\<rparr>)"
    using row by simp
next
  fix i u ps c msg
  have "api_call_stats (record_failure e st r i u ps c msg) =
          upsert_failure (api_call_stats st) i (now e) (today_of (now e))"
    by (simp add: record_failure_def)
  then show "\<exists>row'. api_call_stats (record_failure e st r i u ps c msg) k = Some row' \<and>
           avg_response_time row' = avg_response_time row \<and>
           success_count row' = success_count row \<and>
           (row' = row \<or>
            row' = row\<lparr>call_count := call_count row + 1,
                       failure_count := failure_count row + 1,
                       last_called_at := now e\<rparr>)"
    using upsert_failure_frame [of "api_call_stats st" k row i "now e" "today_of (now e)", OF row] by simp
qed

text \<open>
  Claim C10, as stated, fails in its last clause: the running average is not influenced by
  successful requests alone. From the row left by one success of 100 ms, a success of
  200 ms stores the average 200; with a failed request in between, the same success stores
  150, because the failure upsert increments the call count, which the average expression
  of the success upsert reads.
\<close>

theorem failure_changes_next_average_counterexample:
  "upsert_success one_success_stats 1 200 ''2024-05-01 10:00:05'' ''2024-05-01''
       (1, ''2024-05-01'') =
     Some \<lparr>call_count = 2, success_count = 2, failure_count = 0,
           avg_response_time = Some 200, last_called_at = ''2024-05-01 10:00:05''\<rparr> \<and>
   upsert_success
       (upsert_failure one_success_stats 1 ''2024-05-01 10:00:03'' ''2024-05-01'')
       1 200 ''2024-05-01 10:00:05'' ''2024-05-01'' (1, ''2024-05-01'') =
     Some \<lparr>call_count = 3, success_count = 2, failure_count = 1,
           avg_response_time = Some 150, last_called_at = ''2024-05-01 10:00:05''\<rparr>"
  by (simp add: one_success_stats_def upsert_success_def upsert_failure_def updated_average_def)

text \<open>
  Claim C10, amended. The failure upsert applied to an existing row changes the call
  count, the failure count and the time of the last call, and nothing else. For every
  request that the handler does not answer with 200 (that is 503, 401, 403, 400 and 500,
  and the route miss 404), every row of the statistics that existed before still exists
  with the same average and the same success count; it is either unchanged or has the call
  count and the failure count incremented and the time of the last call replaced. So the
  stored average is written by successful requests only. Its value after a later success
  does depend on the failures before it, through the call count.
\<close>

theorem failure_outcomes_keep_average:
  "(\<forall>row. stats (i, d) = Some row \<longrightarrow>
      upsert_failure stats i n d =
        stats((i, d) \<mapsto> row\<lparr>call_count := call_count row + 1,
                               failure_count := failure_count row + 1,
                               last_called_at := n\<rparr>)) \<and>
   (\<forall>resp st' k row.
      execute_api e st r = (resp, st') \<and> status_code resp \<noteq> 200 \<and>
      api_call_stats st k = Some row \<longrightarrow>
      (\<exists>row'. api_call_stats st' k = Some row' \<and>
         avg_response_time row' = avg_response_time row \<and>
         success_count row' = success_count row \<and>
         (row' = row \<or>
          row' = row\<lparr>call_count := call_count row + 1,
                     failure_count := failure_count row + 1,
                     last_called_at := now e\<rparr>)))"
proof (intro conjI allI impI)
  fix row
  assume "stats (i, d) = Some row"
  then show "upsert_failure stats i n d =
        stats((i, d) \<mapsto> row\<lparr>call_count := call_count row + 1,
                               failure_count := failure_count row + 1,
                               last_called_at := n\<rparr>)"
    by (rule upsert_failure_existing)
next
  fix resp st' k row
  assume h: "execute_api e st r = (resp, st') \<and> status_code resp \<noteq> 200 \<and>
      api_call_stats st k = Some row"
  then have ns: "status_code resp \<noteq> 200" by simp
  from h execute_api_failure_frame [OF _ ns]
  show "\<exists>row'. api_call_stats st' k = Some row' \<and>
         avg_response_time row' = avg_response_time row \<and>
         success_count row' = success_count row \<and>
         (row' = row \<or>
          row' = row\<lparr>call_count := call_count row + 1,
                     failure_count := failure_count row + 1,
                     last_called_at := now e\<rparr>)"
    by blast
qed

lemma get_orders_route:
  "request_path get_orders = ''/orders''" "request_method get_orders = ''GET''"
  by code_simp+

lemma get_orders_match:
  "findMatchingAPI (apis store_orders) ''/orders'' ''GET'' = Some (orders_api, [])"
  by code_simp

lemma get_orders_params: "all_params get_orders [] = [(''path'', JStr ''orders'')]"
  by code_simp

lemma get_orders_unauthenticated:
  "execute_api env_ok store_orders get_orders =
     (Unauthenticated401,
      record_failure env_ok store_orders get_orders 3 None [(''path'', JStr ''orders'')] 401
        (Message ''Authentication required''))"
proof -
  have a: "ds_status orders_api = Some ''active''" "require_auth orders_api = 1"
    "api_id orders_api = 3"
    by (simp_all add: orders_api_def)
  have u: "user_or_null (userId get_orders) = None"
    by (simp add: user_or_null_def get_orders_def)
  show ?thesis
    unfolding execute_api_def Let_def get_orders_route get_orders_match
    by (simp add: a u get_orders_params)
qed

theorem failure_outcomes_keep_average_witness:
  "execute_api env_ok store_orders get_orders =
     (Unauthenticated401,
      record_failure env_ok store_orders get_orders 3 None [(''path'', JStr ''orders'')] 401
        (Message ''Authentication required'')) \<and>
   status_code Unauthenticated401 = 401 \<and>
   api_call_stats store_orders (3, ''2024-05-01'') = Some orders_row \<and>
   api_call_stats
     (record_failure env_ok store_orders get_orders 3 None [(''path'', JStr ''orders'')] 401
        (Message ''Authentication required'')) (3, ''2024-05-01'') =
     Some \<lparr>call_count = 4, success_count = 3, failure_count = 1,
           avg_response_time = Some 120, last_called_at = ''2024-05-01 10:00:05''\<rparr> \<and>
   (\<exists>row'. api_call_stats
       (record_failure env_ok store_orders get_orders 3 None [(''path'', JStr ''orders'')] 401
          (Message ''Authentication required'')) (3, ''2024-05-01'') = Some row' \<and>
      avg_response_time row' = avg_response_time orders_row \<and>
      success_count row' = success_count orders_row)"
proof -
  let ?st' = "record_failure env_ok store_orders get_orders 3 None [(''path'', JStr ''orders'')] 401
        (Message ''Authentication required'')"
  have s: "status_code Unauthenticated401 = 401" by simp
  have row: "api_call_stats store_orders (3, ''2024-05-01'') = Some orders_row"
    by (simp add: store_orders_def)
  have td: "today_of ''2024-05-01 10:00:05'' = ''2024-05-01''" by code_simp
  have new: "api_call_stats ?st' (3, ''2024-05-01'') =
     Some \<lparr>call_count = 4, success_count = 3, failure_count = 1,
           avg_response_time = Some 120, last_called_at = ''2024-05-01 10:00:05''\<rparr>"
    by (simp add: record_failure_def td upsert_failure_def store_orders_def orders_row_def
        env_ok_def)
  note th = failure_outcomes_keep_average [of Map.empty 0 "[]" "[]" env_ok store_orders get_orders]
  from th [THEN conjunct2, rule_format, of Unauthenticated401 ?st' "(3, ''2024-05-01'')" orders_row]
    get_orders_unauthenticated s row
  have "\<exists>row'. api_call_stats ?st' (3, ''2024-05-01'') = Some row' \<and>
         avg_response_time row' = avg_response_time orders_row \<and>
         success_count row' = success_count orders_row \<and>
         (row' = orders_row \<or>
          row' = orders_row\<lparr>call_count := call_count orders_row + 1,
                     failure_count := failure_count orders_row + 1,
                     last_called_at := now env_ok\<rparr>)"
    by simp
  then have ex: "\<exists>row'. api_call_stats ?st' (3, ''2024-05-01'') = Some row' \<and>
      avg_response_time row' = avg_response_time orders_row \<and>
      success_count row' = success_count orders_row"
    by blast
  show ?thesis by (intro conjI get_orders_unauthenticated s row new ex)
qed

lemma get_user_42_route:
  "request_path get_user_42 = ''/users/42''" "request_method get_user_42 = ''GET''"
  by code_simp+

lemma get_user_42_match:
  "findMatchingAPI (apis store_users) ''/users/42'' ''GET'' = Some (users_param, [(''id'', ''42'')])"
  by code_simp

lemma get_user_42_params:
  "route_params get_user_42 [(''id'', ''42'')] = [(''path'', JStr ''users/42''), (''id'', JStr ''42'')]"
  "all_params get_user_42 [(''id'', ''42'')] = [(''path'', JStr ''users/42''), (''id'', JStr ''42'')]"
  by code_simp+

lemma get_user_42_valid:
  "validateAndSanitizeRequest number_rule [] [(''path'', JStr ''users/42''), (''id'', JStr ''42'')]
     = \<lparr>valid = True, sanitizedParams = Some [(''path'', JStr ''users/42''), (''id'', JStr ''42'')],
        errors = None\<rparr>"
  by code_simp

lemma get_user_42_render:
  "render reject_pattern (sql_template users_param) [(''path'', JStr ''users/42''), (''id'', JStr ''42'')]
     = Inr (''SELECT * FROM users WHERE id = ?'', [JStr ''42''])"
  by code_simp

lemma get_user_42_on_error:
  "on_error env_down store_users get_user_42
     (params_path_of [(''path'', JStr ''users/42''), (''id'', JStr ''42'')]) msg
   = (Failed500 (if msg = [] then ''Failed to execute API'' else msg), store_users)"
proof -
  have "filter (\<lambda>a. api_path a = ''/'' @ params_path_of [(''path'', JStr ''users/42''), (''id'', JStr ''42'')] \<and>
                     api_method a = request_method get_user_42) (apis store_users) = []"
    by (simp add: store_users_def users_param_def params_path_of_def)
  then show ?thesis by (simp add: on_error_def)
qed

lemma get_user_42_run:
  "run_sql env_down store_users get_user_42 users_param [(''id'', ''42'')]
     [(''path'', JStr ''users/42''), (''id'', JStr ''42'')]
   = (Failed500 ''connect ETIMEDOUT'', store_users)"
proof -
  have envs: "engine env_down = reject_pattern"
    "executeQuery env_down = (\<lambda>poolName sql params t. Inl ''connect ETIMEDOUT'')"
    by (simp_all add: env_down_def)
  show ?thesis
    unfolding run_sql_def get_user_42_render get_user_42_params envs
    by (simp add: get_user_42_on_error)
qed

text \<open>
  Claim C5 holds of the specification and fails on the code. The published endpoint
  \<^verbatim>\<open>GET /users/:id\<close> on an active datasource is matched by the request
  \<^verbatim>\<open>GET /users/42\<close>; the query fails in the driver and the answer is 500. The
  \<^verbatim>\<open>catch\<close> block looks the endpoint up by the literal request path, finds none, and
  writes neither the access log entry nor the upsert: the store is unchanged.
\<close>

theorem internal_error_on_parameterized_route_not_logged:
  "findMatchingAPI (apis store_users) (request_path get_user_42) (request_method get_user_42) =
     Some (users_param, [(''id'', ''42'')]) \<and>
   execute_api env_down store_users get_user_42 = (Failed500 ''connect ETIMEDOUT'', store_users)"
proof -
  have ds: "ds_status users_param = Some ''active''" "require_auth users_param = 0"
    by (simp_all add: users_param_def)
  have envs: "rule env_down = number_rule"
    by (simp_all add: env_down_def)
  have pars: "api_parameters store_users (api_id users_param) = []"
    by (simp add: store_users_def)
  have "execute_api env_down store_users get_user_42 = (Failed500 ''connect ETIMEDOUT'', store_users)"
    unfolding execute_api_def Let_def get_user_42_route get_user_42_match
    by (simp add: get_user_42_params ds envs pars get_user_42_valid get_user_42_run)
  then show ?thesis by (simp add: get_user_42_route get_user_42_match)
qed

text \<open>What does hold: a rejection before the execution (503, 401, 403, 400) appends one
  access log entry and makes the failure upsert; a success appends one entry and makes the
  success upsert; an internal error does the former or leaves the store as it is.\<close>

lemma execute_api_rejection_cases:
  assumes ex: "execute_api e st r = (resp, st')"
    and ns: "status_code resp \<in> {503, 401, 403, 400}"
    and P1: "\<And>i u ps c msg. P (record_failure e st r i u ps c msg)"
  shows "P st'"
proof (cases "findMatchingAPI (apis st) (request_path r) (request_method r)")
  case None
  with ex ns show ?thesis by (auto simp: execute_api_def)
next
  case (Some m)
  obtain a pp where m: "m = (a, pp)" by (cases m)
  from ex ns show ?thesis
    unfolding execute_api_def Let_def Some m
    by (auto split: if_splits intro: P1 dest: run_sql_status)
qed

lemma rejection_writes_once:
  assumes "execute_api e st r = (resp, st')" "status_code resp \<in> {503, 401, 403, 400}"
  shows "\<exists>entry i. st' = st\<lparr>api_access_logs := api_access_logs st @ [entry],
                             api_call_stats := upsert_failure (api_call_stats st) i (now e)
                                                 (today_of (now e))\<rparr>"
  by (rule execute_api_rejection_cases [OF assms]) (auto simp: record_failure_def)

lemma success_writes_once:
  assumes "execute_api e st r = (resp, st')" "status_code resp = 200"
  shows "\<exists>entry i. st' = st\<lparr>api_access_logs := api_access_logs st @ [entry],
                             api_call_stats := upsert_success (api_call_stats st) i
                                                 (executionTime e) (now e) (today_of (now e))\<rparr>"
proof (cases "findMatchingAPI (apis st) (request_path r) (request_method r)")
  case None
  with assms show ?thesis by (auto simp: execute_api_def)
next
  case (Some m)
  obtain a pp where m: "m = (a, pp)" by (cases m)
  have rs: "\<And>s. run_sql e st r a pp s = (resp, st') \<Longrightarrow> ?thesis"
    using assms(2) unfolding run_sql_def
    by (auto split: sum.splits prod.splits dest: on_error_status)
  from assms show ?thesis
    unfolding execute_api_def Let_def Some m
    by (auto split: if_splits intro: rs)
qed








section \<open>Properties of validation\<close>

lemma valid_result_keeps_every_key:
  "valid (validateAndSanitizeRequest rl parameters params) \<Longrightarrow>
   sanitizedParams (validateAndSanitizeRequest rl parameters params) =
     Some (map (\<lambda>(key, value). (key, sanitizeInput value)) params)"
  by (simp add: validateAndSanitizeRequest_def Let_def split: if_splits)

lemma obj_set_keys:
  "map fst (obj_set kvs k v) = (if k \<in> set (map fst kvs) then map fst kvs else map fst kvs @ [k])"
proof (induction kvs)
  case Nil
  then show ?case by simp
next
  case (Cons kv kvs)
  obtain k' v' where kv: "kv = (k', v')" by (cases kv)
  show ?case
  proof (cases "k' = k")
    case True
    then show ?thesis by (simp add: kv)
  next
    case False
    with Cons show ?thesis by (simp add: kv)
  qed
qed

lemma obj_set_fresh: "k \<notin> set (map fst kvs) \<Longrightarrow> obj_set kvs k v = kvs @ [(k, v)]"
  by (induction kvs) auto

lemma foldl_obj_set_fresh:
  "distinct (map fst ds) \<Longrightarrow> set (map fst acc) \<inter> set (map fst ds) = {} \<Longrightarrow>
   foldl (\<lambda>obj (k, v). obj_set obj k v) acc ds = acc @ ds"
proof (induction ds arbitrary: acc)
  case Nil
  then show ?case by simp
next
  case (Cons d ds)
  obtain k v where d: "d = (k, v)" by (cases d)
  from Cons.prems have fresh: "k \<notin> set (map fst acc)" by (auto simp: d)
  have "foldl (\<lambda>obj (k, v). obj_set obj k v) (acc @ [(k, v)]) ds = (acc @ [(k, v)]) @ ds"
    using Cons.prems by (intro Cons.IH) (auto simp: d)
  then show ?case by (simp add: d obj_set_fresh [OF fresh])
qed

lemma buildJoiSchema_distinct_aux:
  "distinct (map fst acc) \<Longrightarrow>
   distinct (map fst (foldl (\<lambda>schemaObj param. obj_set schemaObj (param_name param) param) acc ps))"
  by (induction ps arbitrary: acc) (auto simp: obj_set_keys)

lemma buildJoiSchema_distinct: "distinct (map fst (buildJoiSchema ps))"
  by (simp add: buildJoiSchema_def buildJoiSchema_distinct_aux)

lemma schema_validate_keys:
  "map fst (schema_validate rl schema params) =
     map fst (filter (\<lambda>(key, param). validate_key rl param (map_of params key) \<noteq> None) schema)"
  unfolding schema_validate_def
  by (induction schema) (auto split: option.splits)

lemma schema_validate_distinct:
  "distinct (map fst schema) \<Longrightarrow> distinct (map fst (schema_validate rl schema params))"
  by (simp add: schema_validate_keys distinct_map_filter)

text \<open>All field errors are collected, each under the name of its parameter.\<close>

lemma validateRequest_errors:
  assumes "parameters \<noteq> []"
  shows "validateRequest rl parameters params =
     (if schema_validate rl (buildJoiSchema parameters) params = []
      then \<lparr>valid = True, sanitizedParams = None, errors = None\<rparr>
      else \<lparr>valid = False, sanitizedParams = None,
            errors = Some (schema_validate rl (buildJoiSchema parameters) params)\<rparr>)"
proof -
  have "foldl (\<lambda>errors (path, message). obj_set errors path message) []
          (schema_validate rl (buildJoiSchema parameters) params) =
        [] @ schema_validate rl (buildJoiSchema parameters) params"
    by (rule foldl_obj_set_fresh) (simp_all add: schema_validate_distinct buildJoiSchema_distinct)
  with assms show ?thesis by (simp add: validateRequest_def Let_def)
qed

lemma schema_validate_member:
  "(key, message) \<in> set (schema_validate rl schema params) =
     (\<exists>param. (key, param) \<in> set schema \<and> validate_key rl param (map_of params key) = Some message)"
  unfolding schema_validate_def
  by (induction schema) (auto split: option.splits)

text \<open>A required parameter that is absent is a field error under its name.\<close>

lemma required_absent_is_field_error:
  assumes "(key, param) \<in> set (buildJoiSchema parameters)" "required param = 1"
    and "map_of params key = None"
  shows "\<not> valid (validateRequest rl parameters params)"
    and "\<exists>es. errors (validateRequest rl parameters params) = Some es \<and>
              (key, ''\"'' @ param_name param @ ''\" is required'') \<in> set es"
proof -
  from assms(1) have ne: "parameters \<noteq> []" by (auto simp: buildJoiSchema_def)
  have v: "validate_key rl param (map_of params key) = Some (''\"'' @ param_name param @ ''\" is required'')"
    using assms(2,3) by (simp add: validate_key_def)
  with assms(1) have m: "(key, ''\"'' @ param_name param @ ''\" is required'')
      \<in> set (schema_validate rl (buildJoiSchema parameters) params)"
    unfolding schema_validate_member by blast
  then have "schema_validate rl (buildJoiSchema parameters) params \<noteq> []" by auto
  with m show "\<not> valid (validateRequest rl parameters params)"
    and "\<exists>es. errors (validateRequest rl parameters params) = Some es \<and>
              (key, ''\"'' @ param_name param @ ''\" is required'') \<in> set es"
    by (simp_all add: validateRequest_errors [OF ne])
qed

text \<open>
  Claim C6 holds of the specification and fails on the code in its last part. The endpoint
  has the one stored parameter \<^verbatim>\<open>id\<close> (a required number); the bag has \<^verbatim>\<open>id\<close> and
  the unknown key \<^verbatim>\<open>extra\<close>. The result is valid and the sanitized bag still has
  \<^verbatim>\<open>extra\<close>, trimmed: the library is asked to strip unknown keys, but the value it
  returns is dropped and the bag that was passed in is returned.
\<close>

theorem sanitized_bag_keeps_unknown_keys:
  "map param_name [param_id_number] = [''id''] \<and>
   validateAndSanitizeRequest number_rule [param_id_number]
       [(''id'', JNum 5), (''extra'', JStr ''  x '')] =
     \<lparr>valid = True,
      sanitizedParams = Some [(''id'', JNum 5), (''extra'', JStr ''x'')],
      errors = None\<rparr>"
  by code_simp

section \<open>Properties of SQL rendering and of the row cap\<close>

text \<open>
  Claim C2 holds of the specification and fails on the code. The value of \<^verbatim>\<open>order_by\<close>
  is not inserted as it is but read as a replacement template: for the value \<^verbatim>\<open>$&\<close>
  the placeholder is replaced by itself and stays in the SQL text, where inserting the
  value as it is gives \<^verbatim>\<open>ORDER BY $&\<close>.
\<close>

theorem raw_value_read_as_replacement_template:
  "render reject_pattern ''SELECT * FROM users ORDER BY {{order_by}}'' [(''order_by'', JStr ''$&'')] =
     Inr (''SELECT * FROM users ORDER BY {{order_by}}'', []) \<and>
   substitute_all (placeholder ''order_by'') ''$&'' ''SELECT * FROM users ORDER BY {{order_by}}'' =
     ''SELECT * FROM users ORDER BY $&''"
  by code_simp

text \<open>The same for \<^verbatim>\<open>search\<close>: a dollar sign and a quote make the replacement insert
  the rest of the statement, and the quote that closes the pattern early.\<close>

lemma search_value_read_as_replacement_template:
  "render reject_pattern ''SELECT * FROM users WHERE name LIKE {{search}} AND active = 1''
       [(''search'', JStr [CHR ''$'', CHR 0x27])] =
     Inr (''SELECT * FROM users WHERE name LIKE '' @ [CHR 0x27] @ ''% AND active = 1'' @
            [CHR 0x27] @ ''%'' @ [CHR 0x27] @ '' AND active = 1'', [])"
  by code_simp

text \<open>
  Claim C3 holds of the specification and fails on the code for the third dialect. The
  statement begins with a blank: the test for a SELECT trims it, the insertion of
  \<^verbatim>\<open>TOP 1000\<close> does not, so no cap is injected, where the first dialect caps the same
  statement.
\<close>

theorem row_cap_missing_after_leading_blank:
  "startsWith (toUpperCase (trim '' SELECT * FROM t'')) ''SELECT'' \<and>
   \<not> str_includes (toUpperCase (trim '' SELECT * FROM t'')) '' TOP '' \<and>
   apply_row_cap (Some ''mssql'') '' SELECT * FROM t'' = '' SELECT * FROM t'' \<and>
   apply_row_cap (Some ''mysql'') '' SELECT * FROM t'' = '' SELECT * FROM t LIMIT 1000''"
  by code_simp

lemma expand_replacement_plain:
  "CHR ''$'' \<notin> set t \<Longrightarrow> expand_replacement t m p q = t"
  by (induction t m p q rule: expand_replacement.induct) auto

lemma replace_scan_plain:
  "CHR ''$'' \<notin> set t \<Longrightarrow> replace_scan pat t pre s = substitute_all pat t s"
proof (induction pat t s arbitrary: pre rule: substitute_all.induct)
  case (1 pat t)
  then show ?case by simp
next
  case (2 pat t c cs)
  show ?case
  proof (cases "pat \<noteq> [] \<and> startsWith (c # cs) pat")
    case True
    with "2.IH"(1) [OF True] "2.prems" show ?thesis
      by (simp add: expand_replacement_plain)
  next
    case False
    from "2.IH"(2) [OF False "2.prems"] False show ?thesis by auto
  qed
qed

lemma replace_all_literal_plain:
  "CHR ''$'' \<notin> set t \<Longrightarrow> replace_all_literal pat t s = substitute_all pat t s"
  by (simp add: replace_all_literal_def replace_scan_plain)

lemma escape_quotes_no_dollar:
  "CHR ''$'' \<notin> set s \<Longrightarrow> CHR ''$'' \<notin> set (escape_quotes s)"
  by (induction s) (auto simp: escape_quotes_def)

text \<open>What does hold of one round of the loop, for a key of word characters (not all
  digits) whose placeholder occurs in the text. A key outside the three special names gives
  the bound-parameter placeholder and appends its value; the special keys give their text,
  as it is whenever that text has no dollar sign.\<close>

lemma render_step_bound:
  assumes "plain_key key" "str_includes sql (placeholder key)"
    and "key \<noteq> ''search''" "key \<notin> set [''order_by'', ''order'', ''limit'']"
  shows "render_step eng (sql, queryParams) (key, v) =
           Inr (substitute_all (placeholder key) ''?'' sql, queryParams @ [v])"
proof -
  have "replace_all_literal (placeholder key) ''?'' sql = substitute_all (placeholder key) ''?'' sql"
    by (rule replace_all_literal_plain) simp
  with assms show ?thesis
    by (simp add: render_step_def replace_placeholder_def)
qed

lemma render_step_direct:
  assumes "key \<in> set [''order_by'', ''order'', ''limit'']" "str_includes sql (placeholder key)"
    and "CHR ''$'' \<notin> set (js_String v)"
  shows "render_step eng (sql, queryParams) (key, v) =
           Inr (substitute_all (placeholder key) (js_String v) sql, queryParams)"
proof -
  from assms(1) have pk: "plain_key key" and ns: "key \<noteq> ''search''"
    by (auto simp: plain_key_def is_word_char_def is_digit_def lower_letters_def upper_letters_def)
  have "replace_all_literal (placeholder key) (js_String v) sql =
        substitute_all (placeholder key) (js_String v) sql"
    using assms(3) by (rule replace_all_literal_plain)
  with assms(1,2) pk ns show ?thesis
    by (simp add: render_step_def replace_placeholder_def)
qed

lemma render_step_search:
  assumes "str_includes sql (placeholder ''search'')" "CHR ''$'' \<notin> set (js_String v)"
  shows "render_step eng (sql, queryParams) (''search'', v) =
           Inr (substitute_all (placeholder ''search'')
                  ([CHR 0x27] @ ''%'' @ escape_quotes (js_String v) @ ''%'' @ [CHR 0x27]) sql,
                queryParams)"
proof -
  have pk: "plain_key ''search''"
    by (simp add: plain_key_def is_word_char_def is_digit_def lower_letters_def upper_letters_def)
  have "CHR ''$'' \<notin> set ([CHR 0x27] @ ''%'' @ escape_quotes (js_String v) @ ''%'' @ [CHR 0x27])"
    using escape_quotes_no_dollar [OF assms(2)] by simp
  then have "replace_all_literal (placeholder ''search'')
          ([CHR 0x27] @ ''%'' @ escape_quotes (js_String v) @ ''%'' @ [CHR 0x27]) sql =
        substitute_all (placeholder ''search'')
          ([CHR 0x27] @ ''%'' @ escape_quotes (js_String v) @ ''%'' @ [CHR 0x27]) sql"
    by (rule replace_all_literal_plain)
  with assms(1) pk show ?thesis
    by (simp add: render_step_def replace_placeholder_def)
qed

lemma render_step_absent:
  "\<not> str_includes sql (placeholder key) \<Longrightarrow>
   render_step eng (sql, queryParams) (key, v) = Inr (sql, queryParams)"
  by (simp add: render_step_def)

text \<open>What does hold of the row cap.\<close>

lemma apply_row_cap_not_select:
  "\<not> startsWith (toUpperCase (trim sql)) ''SELECT'' \<Longrightarrow> apply_row_cap t sql = sql"
  by (simp add: apply_row_cap_def Let_def)

lemma apply_row_cap_limit:
  assumes "t = ''mysql'' \<or> t = ''postgresql''"
    and "startsWith (toUpperCase (trim sql)) ''SELECT''"
  shows "apply_row_cap (Some t) sql =
     (if str_includes (toUpperCase (trim sql)) '' LIMIT '' \<or> endsWith (toUpperCase (trim sql)) '' LIMIT''
      then sql else insert_limit sql '' LIMIT 1000'')"
  using assms by (auto simp: apply_row_cap_def Let_def)

lemma apply_row_cap_fetch_first:
  assumes "startsWith (toUpperCase (trim sql)) ''SELECT''"
  shows "apply_row_cap (Some ''oracle'') sql =
     (if str_includes (toUpperCase (trim sql)) '' ROWNUM '' \<or>
         str_includes (toUpperCase (trim sql)) '' FETCH FIRST ''
      then sql else insert_limit sql '' FETCH FIRST 1000 ROWS ONLY'')"
  using assms by (auto simp: apply_row_cap_def Let_def)

lemma apply_row_cap_top:
  assumes "startsWith (toUpperCase (trim sql)) ''SELECT''"
  shows "apply_row_cap (Some ''mssql'') sql =
     (if str_includes (toUpperCase (trim sql)) '' TOP '' then sql else replace_leading_select sql)"
  using assms by (auto simp: apply_row_cap_def Let_def)

lemma lastIndexOf_append_absent:
  "ch \<notin> set w \<Longrightarrow> lastIndexOf (s @ ch # w) ch = Some (length s)"
proof (induction s)
  case Nil
  have "lastIndexOf w ch = None" using Nil by (induction w) auto
  then show ?case by simp
next
  case (Cons c s)
  then show ?case by simp
qed

lemma lastIndexOf_absent: "ch \<notin> set s \<Longrightarrow> lastIndexOf s ch = None"
  by (induction s) auto

text \<open>The clause goes before the last semicolon, which is the trailing terminator when the
  statement has one, and to the end of a statement without a semicolon.\<close>

lemma insert_limit_before_terminator:
  "CHR '';'' \<notin> set w \<Longrightarrow> insert_limit (s @ CHR '';'' # w) clause = s @ clause @ CHR '';'' # w"
  by (simp add: insert_limit_def lastIndexOf_append_absent)

lemma insert_limit_no_terminator:
  "CHR '';'' \<notin> set s \<Longrightarrow> insert_limit s clause = s @ clause"
  by (simp add: insert_limit_def lastIndexOf_absent)

end
